theory Spec2Isabelle
  imports Complex_Main "HOL-Library.Word" "HOL-Library.Log_Nat"
begin

section \<open>Single-precision arithmetic\<close>

text \<open>
  The animator computes in C++ \<^verbatim>\<open>float\<close> (IEEE 754 binary32, round to nearest, ties to
  even). A finite value is the rational number it denotes; the two infinities and NaN are
  values of their own. The sign of zero is not kept: the program never divides by a zero
  (the only division is guarded by \<^verbatim>\<open>mDuration > 0\<close>) and never inspects the sign bit.
  Every operation rounds its own result; a product and a sum are not fused.
\<close>

datatype float = Finite rat | PlusInf | MinusInf | NaN

definition pow2 :: "int \<Rightarrow> rat" where
  "pow2 k = (if 0 \<le> k then 2 ^ nat k else 1 / 2 ^ nat (- k))"

text \<open>The binary exponent of a positive rational: \<open>pow2 (ilog2 x) \<le> x < pow2 (ilog2 x + 1)\<close>.\<close>

definition ilog2 :: "rat \<Rightarrow> int" where
  "ilog2 x = (case quotient_of x of (p, q) \<Rightarrow>
     let k = bitlen p - bitlen q in if pow2 k \<le> x then k else k - 1)"

text \<open>Rounding to the nearest integer, a tie going to the even neighbour.\<close>

definition rne :: "rat \<Rightarrow> int" where
  "rne q = (let f = \<lfloor>q\<rfloor>; r = q - of_int f in
     if r < 1 / 2 then f else if 1 / 2 < r then f + 1 else if even f then f else f + 1)"

text \<open>
  The exponent of the unit in the last place: 24 significant bits, and below the smallest
  normal number \<open>2\<^sup>-\<^sup>1\<^sup>2\<^sup>6\<close> the fixed spacing \<open>2\<^sup>-\<^sup>1\<^sup>4\<^sup>9\<close> of the subnormal numbers.
\<close>

definition ulp_exp :: "rat \<Rightarrow> int" where
  "ulp_exp x = max (ilog2 \<bar>x\<bar>) (- 126) - 23"

definition round_rat :: "rat \<Rightarrow> rat" where
  "round_rat x = (if x = 0 then 0 else of_int (rne (x / pow2 (ulp_exp x))) * pow2 (ulp_exp x))"

text \<open>The correctly rounded result of an exact value; it overflows to an infinity.\<close>

definition to_float :: "rat \<Rightarrow> float" where
  "to_float x = (let r = round_rat x in
     if 2 ^ 128 \<le> r then PlusInf else if r \<le> - (2 ^ 128) then MinusInf else Finite r)"

text \<open>A rational is a single-precision number when rounding leaves it alone.\<close>

definition is_float :: "rat \<Rightarrow> bool" where
  "is_float x = (round_rat x = x \<and> \<bar>x\<bar> < 2 ^ 128)"

fun fneg :: "float \<Rightarrow> float" where
  "fneg (Finite a) = Finite (- a)"
| "fneg PlusInf = MinusInf"
| "fneg MinusInf = PlusInf"
| "fneg NaN = NaN"

fun fadd :: "float \<Rightarrow> float \<Rightarrow> float" where
  "fadd (Finite a) (Finite b) = to_float (a + b)"
| "fadd NaN y = NaN"
| "fadd x NaN = NaN"
| "fadd PlusInf MinusInf = NaN"
| "fadd MinusInf PlusInf = NaN"
| "fadd PlusInf y = PlusInf"
| "fadd MinusInf y = MinusInf"
| "fadd (Finite a) PlusInf = PlusInf"
| "fadd (Finite a) MinusInf = MinusInf"

definition fsub :: "float \<Rightarrow> float \<Rightarrow> float" where
  "fsub x y = fadd x (fneg y)"

text \<open>An infinity with the sign of a non-zero rational.\<close>

definition inf_of_sign :: "rat \<Rightarrow> float" where
  "inf_of_sign s = (if 0 < s then PlusInf else MinusInf)"

fun fmul :: "float \<Rightarrow> float \<Rightarrow> float" where
  "fmul (Finite a) (Finite b) = to_float (a * b)"
| "fmul NaN y = NaN"
| "fmul x NaN = NaN"
| "fmul PlusInf (Finite b) = (if b = 0 then NaN else inf_of_sign b)"
| "fmul MinusInf (Finite b) = (if b = 0 then NaN else inf_of_sign (- b))"
| "fmul (Finite a) PlusInf = (if a = 0 then NaN else inf_of_sign a)"
| "fmul (Finite a) MinusInf = (if a = 0 then NaN else inf_of_sign (- a))"
| "fmul PlusInf PlusInf = PlusInf"
| "fmul MinusInf MinusInf = PlusInf"
| "fmul PlusInf MinusInf = MinusInf"
| "fmul MinusInf PlusInf = MinusInf"

text \<open>
  Division. A finite non-zero value over zero is an infinity whose sign IEEE takes from
  both operands; with the sign of zero not kept, the numerator's sign stands for it.
\<close>

fun fdiv :: "float \<Rightarrow> float \<Rightarrow> float" where
  "fdiv (Finite a) (Finite b) =
     (if b = 0 then (if a = 0 then NaN else inf_of_sign a) else to_float (a / b))"
| "fdiv NaN y = NaN"
| "fdiv x NaN = NaN"
| "fdiv (Finite a) PlusInf = Finite 0"
| "fdiv (Finite a) MinusInf = Finite 0"
| "fdiv PlusInf (Finite b) = (if b < 0 then MinusInf else PlusInf)"
| "fdiv MinusInf (Finite b) = (if b < 0 then PlusInf else MinusInf)"
| "fdiv PlusInf y = NaN"
| "fdiv MinusInf y = NaN"

text \<open>The comparison \<^verbatim>\<open>x >= y\<close>: false as soon as an operand is NaN.\<close>

fun fge :: "float \<Rightarrow> float \<Rightarrow> bool" where
  "fge (Finite a) (Finite b) = (b \<le> a)"
| "fge NaN y = False"
| "fge x NaN = False"
| "fge PlusInf y = True"
| "fge x MinusInf = True"
| "fge (Finite a) PlusInf = False"
| "fge MinusInf y = False"

text \<open>\<^verbatim>\<open>nsecs_t\<close> is \<^verbatim>\<open>int64_t\<close>: a 64-bit word read as two's complement.\<close>

type_synonym nsecs_t = "64 word"

text \<open>The conversion \<^verbatim>\<open>(float) n\<close> of a 64-bit integer; it cannot overflow.\<close>

definition float_of_int64 :: "nsecs_t \<Rightarrow> float" where
  "float_of_int64 n = to_float (of_int (sint n))"

text \<open>
  The conversion \<^verbatim>\<open>(int) x\<close> truncates towards zero. It is undefined when the truncated
  value does not fit a 32-bit \<^verbatim>\<open>int\<close>, and for the infinities and NaN.
\<close>

definition truncate_rat :: "rat \<Rightarrow> int" where
  "truncate_rat r = (if 0 \<le> r then \<lfloor>r\<rfloor> else \<lceil>r\<rceil>)"

fun float_to_int :: "float \<Rightarrow> int option" where
  "float_to_int (Finite r) =
     (if - (2 ^ 31) \<le> truncate_rat r \<and> truncate_rat r < 2 ^ 31 then Some (truncate_rat r)
      else None)"
| "float_to_int x = None"

section \<open>The animator state machine\<close>

datatype PlayState = NOT_STARTED | RUNNING | FINISHED

text \<open>The enumerators' values, which the comparisons \<^verbatim>\<open><\<close> and \<^verbatim>\<open>>\<close> of the code read.\<close>

fun PlayState_val :: "PlayState \<Rightarrow> nat" where
  "PlayState_val NOT_STARTED = 0"
| "PlayState_val RUNNING = 1"
| "PlayState_val FINISHED = 2"

text \<open>
  Every \<^verbatim>\<open>LOG_ALWAYS_FATAL\<close> of the source aborts the process; so does the call through a
  null interpolator, and the float-to-int conversion of a value out of range is undefined.
\<close>

datatype error =
    AlreadyStarted
  | NotARealFrameTime nsecs_t
  | NullInterpolator
  | UndefinedConversion

text \<open>
  What the animator does to the world beyond its target: the warnings it logs and the
  calls it makes to the listener, directly or through the frame's animation hook.
  Listeners and hooks are objects of the caller, known by their identity.
\<close>

type_synonym AnimationListener = nat
type_synonym AnimationHook = nat

datatype event =
    WarnStartDelay nsecs_t
  | WarnStartTime nsecs_t nsecs_t nsecs_t
  | WarnDuration nsecs_t
  | onAnimationFinished AnimationListener
  | callOnFinished AnimationHook AnimationListener

record BaseRenderNodeAnimator =
  mFinalValue :: float
  mDeltaValue :: float
  mFromValue :: float
  mInterpolator :: "(float \<Rightarrow> float) option"
  mStagingPlayState :: PlayState
  mPlayState :: PlayState
  mHasStartValue :: bool
  mStartTime :: nsecs_t
  mDuration :: nsecs_t
  mStartDelay :: nsecs_t
  mListener :: "AnimationListener option"

record TreeInfo =
  frameTimeMs :: nsecs_t
  hasAnimations :: bool
  animationHook :: "AnimationHook option"

text \<open>The constructor. The listener is a smart pointer, null until one is set.\<close>

definition new_BaseRenderNodeAnimator :: "float \<Rightarrow> BaseRenderNodeAnimator" where
  "new_BaseRenderNodeAnimator finalValue =
     \<lparr> mFinalValue = finalValue,
       mDeltaValue = Finite 0,
       mFromValue = Finite 0,
       mInterpolator = None,
       mStagingPlayState = NOT_STARTED,
       mPlayState = NOT_STARTED,
       mHasStartValue = False,
       mStartTime = 0,
       mDuration = 300,
       mStartDelay = 0,
       mListener = None \<rparr>"

definition checkMutable :: "BaseRenderNodeAnimator \<Rightarrow> error + unit" where
  "checkMutable a = (if mStagingPlayState a \<noteq> NOT_STARTED then Inl AlreadyStarted else Inr ())"

definition setInterpolator ::
  "(float \<Rightarrow> float) option \<Rightarrow> BaseRenderNodeAnimator \<Rightarrow> error + BaseRenderNodeAnimator" where
  "setInterpolator interpolator a =
     (case checkMutable a of
        Inl e \<Rightarrow> Inl e
      | Inr u \<Rightarrow> Inr (a\<lparr>mInterpolator := interpolator\<rparr>))"

definition doSetStartValue :: "float \<Rightarrow> BaseRenderNodeAnimator \<Rightarrow> BaseRenderNodeAnimator" where
  "doSetStartValue v a =
     a\<lparr>mFromValue := v, mDeltaValue := fsub (mFinalValue a) v, mHasStartValue := True\<rparr>"

definition setStartValue ::
  "float \<Rightarrow> BaseRenderNodeAnimator \<Rightarrow> error + BaseRenderNodeAnimator" where
  "setStartValue v a =
     (case checkMutable a of
        Inl e \<Rightarrow> Inl e
      | Inr u \<Rightarrow> Inr (doSetStartValue v a))"

definition setDuration ::
  "nsecs_t \<Rightarrow> BaseRenderNodeAnimator \<Rightarrow> error + BaseRenderNodeAnimator" where
  "setDuration duration a =
     (case checkMutable a of
        Inl e \<Rightarrow> Inl e
      | Inr u \<Rightarrow> Inr (a\<lparr>mDuration := duration\<rparr>))"

definition setStartDelay ::
  "nsecs_t \<Rightarrow> BaseRenderNodeAnimator \<Rightarrow> error + BaseRenderNodeAnimator" where
  "setStartDelay startDelay a =
     (case checkMutable a of
        Inl e \<Rightarrow> Inl e
      | Inr u \<Rightarrow> Inr (a\<lparr>mStartDelay := startDelay\<rparr>))"

text \<open>
  Activation. The default interpolator comes from \<^verbatim>\<open>Interpolator::createDefaultInterpolator\<close>,
  which is not part of this file: it is the parameter \<open>dflt\<close>. It is installed through the
  public setter, \<^verbatim>\<open>checkMutable\<close> included, as the source does. The sum
  \<^verbatim>\<open>frameTimeMs + mStartDelay\<close> is the 64-bit one.
\<close>

definition transitionToRunning ::
  "(float \<Rightarrow> float) \<Rightarrow> TreeInfo \<Rightarrow> BaseRenderNodeAnimator \<Rightarrow>
     error + (BaseRenderNodeAnimator \<times> event list)" where
  "transitionToRunning dflt info a =
     (if frameTimeMs info \<le>s 0 then Inl (NotARealFrameTime (frameTimeMs info))
      else
        let w1 = (if mStartDelay a <s 0 \<or> 50000 <s mStartDelay a
                  then [WarnStartDelay (mStartDelay a)] else []);
            a1 = a\<lparr>mStartTime := frameTimeMs info + mStartDelay a\<rparr>;
            w2 = (if mStartTime a1 <s 0
                  then [WarnStartTime (mStartTime a1) (frameTimeMs info) (mStartDelay a1)] else []);
            a2 = (if mStartTime a1 <s 0 then a1\<lparr>mStartTime := 0\<rparr> else a1)
        in case (if mInterpolator a2 = None then setInterpolator (Some dflt) a2 else Inr a2) of
             Inl e \<Rightarrow> Inl e
           | Inr a3 \<Rightarrow>
               let w3 = (if mDuration a3 <s 0 \<or> 50000 <s mDuration a3
                         then [WarnDuration (mDuration a3)] else [])
               in Inr (a3, w1 @ w2 @ w3))"

text \<open>
  The commit. \<open>getValue\<close> is the virtual read of the target's current value, supplied by
  the concrete animator.
\<close>

definition pushStaging ::
  "(float \<Rightarrow> float) \<Rightarrow> ('t \<Rightarrow> float) \<Rightarrow> 't \<Rightarrow> TreeInfo \<Rightarrow> BaseRenderNodeAnimator \<Rightarrow>
     error + (BaseRenderNodeAnimator \<times> event list)" where
  "pushStaging dflt getValue target info a =
     (let a1 = (if \<not> mHasStartValue a then doSetStartValue (getValue target) a else a)
      in if PlayState_val (mPlayState a1) < PlayState_val (mStagingPlayState a1) then
           let a2 = a1\<lparr>mPlayState := mStagingPlayState a1\<rparr>
           in if mPlayState a2 = RUNNING then transitionToRunning dflt info a2 else Inr (a2, [])
         else Inr (a1, []))"

definition callOnFinishedListener :: "TreeInfo \<Rightarrow> BaseRenderNodeAnimator \<Rightarrow> event list" where
  "callOnFinishedListener info a =
     (case mListener a of
        None \<Rightarrow> []
      | Some l \<Rightarrow>
          (case animationHook info of
             None \<Rightarrow> [onAnimationFinished l]
           | Some h \<Rightarrow> [callOnFinished h l]))"

text \<open>The raw progress fraction of a frame, before the test against \<open>1.0\<close>.\<close>

definition raw_fraction :: "TreeInfo \<Rightarrow> BaseRenderNodeAnimator \<Rightarrow> float" where
  "raw_fraction info a =
     (if mPlayState a = RUNNING \<and> 0 <s mDuration a
      then fdiv (float_of_int64 (frameTimeMs info - mStartTime a)) (float_of_int64 (mDuration a))
      else Finite 1)"

text \<open>
  The evaluation step. \<open>setValue\<close> is the virtual write to the target, supplied by the
  concrete animator; it can fail (the paint animator's alpha conversion). The result is
  the returned flag, the animator, the target, the frame context and the calls made.
\<close>

definition animate ::
  "('t \<Rightarrow> float \<Rightarrow> error + 't) \<Rightarrow> 't \<Rightarrow> TreeInfo \<Rightarrow> BaseRenderNodeAnimator \<Rightarrow>
     error + (bool \<times> BaseRenderNodeAnimator \<times> 't \<times> TreeInfo \<times> event list)" where
  "animate setValue target info a =
     (if PlayState_val (mPlayState a) < PlayState_val RUNNING then Inr (False, a, target, info, [])
      else if frameTimeMs info <s mStartTime a
      then Inr (False, a, target, info\<lparr>hasAnimations := True\<rparr>, [])
      else
        let fraction0 = raw_fraction info a;
            fraction = (if fge fraction0 (Finite 1) then Finite 1 else fraction0);
            a1 = (if fge fraction0 (Finite 1) then a\<lparr>mPlayState := FINISHED\<rparr> else a)
        in case mInterpolator a1 of
             None \<Rightarrow> Inl NullInterpolator
           | Some interpolate \<Rightarrow>
               (case setValue target
                       (fadd (mFromValue a1) (fmul (mDeltaValue a1) (interpolate fraction))) of
                  Inl e \<Rightarrow> Inl e
                | Inr target1 \<Rightarrow>
                    if mPlayState a1 = FINISHED
                    then Inr (True, a1, target1, info, callOnFinishedListener info a1)
                    else Inr (False, a1, target1, info\<lparr>hasAnimations := True\<rparr>, [])))"

text \<open>
  A sequence of commits, the control side setting \<^verbatim>\<open>mStagingPlayState\<close> to a state of its
  choice before each one (as \<^verbatim>\<open>start\<close> and \<^verbatim>\<open>end\<close> of the class do). An abort ends the run.
\<close>

fun commits ::
  "(float \<Rightarrow> float) \<Rightarrow> ('t \<Rightarrow> float) \<Rightarrow> (PlayState \<times> 't \<times> TreeInfo) list \<Rightarrow>
     BaseRenderNodeAnimator \<Rightarrow> error + BaseRenderNodeAnimator" where
  "commits dflt getValue [] a = Inr a"
| "commits dflt getValue ((s, target, info) # rest) a =
     (case pushStaging dflt getValue target info (a\<lparr>mStagingPlayState := s\<rparr>) of
        Inl e \<Rightarrow> Inl e
      | Inr (a1, w) \<Rightarrow> commits dflt getValue rest a1)"

text \<open>
  A sequence of evaluations, one per frame: the flags returned, the final animator and
  target, and all the calls made, in order.
\<close>

fun animate_frames ::
  "('t \<Rightarrow> float \<Rightarrow> error + 't) \<Rightarrow> 't \<Rightarrow> TreeInfo list \<Rightarrow> BaseRenderNodeAnimator \<Rightarrow>
     error + (bool list \<times> BaseRenderNodeAnimator \<times> 't \<times> event list)" where
  "animate_frames setValue target [] a = Inr ([], a, target, [])"
| "animate_frames setValue target (info # rest) a =
     (case animate setValue target info a of
        Inl e \<Rightarrow> Inl e
      | Inr (fin, a1, target1, info1, evs) \<Rightarrow>
          (case animate_frames setValue target1 rest a1 of
             Inl e \<Rightarrow> Inl e
           | Inr (fins, a2, target2, evs2) \<Rightarrow> Inr (fin # fins, a2, target2, evs @ evs2)))"

text \<open>
  What every operation keeps true of an animator, from the constructor on: the start time
  is not negative, the delta is the difference of the end values once a start value is
  resolved, and the committed play state leaves \<open>NOT_STARTED\<close> only with a start value.
\<close>

definition consistent :: "BaseRenderNodeAnimator \<Rightarrow> bool" where
  "consistent a =
     (0 \<le>s mStartTime a
      \<and> (mHasStartValue a \<longrightarrow> mDeltaValue a = fsub (mFinalValue a) (mFromValue a))
      \<and> (mPlayState a \<noteq> NOT_STARTED \<longrightarrow> mHasStartValue a))"

section \<open>The render-property animator\<close>

text \<open>
  The enumerators of \<^verbatim>\<open>RenderNode::DirtyPropertyMask\<close> that belong to the animated
  properties, one per property.
\<close>

datatype DirtyPropertyMask =
    RenderNode_TRANSLATION_X
  | RenderNode_TRANSLATION_Y
  | RenderNode_TRANSLATION_Z
  | RenderNode_SCALE_X
  | RenderNode_SCALE_Y
  | RenderNode_ROTATION
  | RenderNode_ROTATION_X
  | RenderNode_ROTATION_Y
  | RenderNode_X
  | RenderNode_Y
  | RenderNode_Z
  | RenderNode_ALPHA

text \<open>The member functions of \<^verbatim>\<open>RenderProperties\<close> the table points to, by name.\<close>

datatype Getter =
    getTranslationX | getTranslationY | getTranslationZ
  | getScaleX | getScaleY
  | getRotation | getRotationX | getRotationY
  | getX | getY | getZ
  | getAlpha

datatype Setter =
    setTranslationX | setTranslationY | setTranslationZ
  | setScaleX | setScaleY
  | setRotation | setRotationX | setRotationY
  | setX | setY | setZ
  | setAlpha

text \<open>The enumeration \<^verbatim>\<open>RenderProperty\<close> that indexes the table, in the table's order.\<close>

datatype RenderProperty =
    TRANSLATION_X | TRANSLATION_Y | TRANSLATION_Z
  | SCALE_X | SCALE_Y
  | ROTATION | ROTATION_X | ROTATION_Y
  | X | Y | Z
  | ALPHA

fun RenderProperty_val :: "RenderProperty \<Rightarrow> nat" where
  "RenderProperty_val TRANSLATION_X = 0"
| "RenderProperty_val TRANSLATION_Y = 1"
| "RenderProperty_val TRANSLATION_Z = 2"
| "RenderProperty_val SCALE_X = 3"
| "RenderProperty_val SCALE_Y = 4"
| "RenderProperty_val ROTATION = 5"
| "RenderProperty_val ROTATION_X = 6"
| "RenderProperty_val ROTATION_Y = 7"
| "RenderProperty_val X = 8"
| "RenderProperty_val Y = 9"
| "RenderProperty_val Z = 10"
| "RenderProperty_val ALPHA = 11"

record PropertyAccessors =
  dirtyMask :: DirtyPropertyMask
  getter :: Getter
  setter :: Setter

definition PROPERTY_ACCESSOR_LUT :: "PropertyAccessors list" where
  "PROPERTY_ACCESSOR_LUT =
     [ \<lparr> dirtyMask = RenderNode_TRANSLATION_X, getter = getTranslationX, setter = setTranslationX \<rparr>,
       \<lparr> dirtyMask = RenderNode_TRANSLATION_Y, getter = getTranslationY, setter = setTranslationY \<rparr>,
       \<lparr> dirtyMask = RenderNode_TRANSLATION_X, getter = getTranslationZ, setter = setTranslationZ \<rparr>,
       \<lparr> dirtyMask = RenderNode_SCALE_X, getter = getScaleX, setter = setScaleX \<rparr>,
       \<lparr> dirtyMask = RenderNode_SCALE_Y, getter = getScaleY, setter = setScaleY \<rparr>,
       \<lparr> dirtyMask = RenderNode_ROTATION, getter = getRotation, setter = setRotation \<rparr>,
       \<lparr> dirtyMask = RenderNode_ROTATION_X, getter = getRotationX, setter = setRotationX \<rparr>,
       \<lparr> dirtyMask = RenderNode_ROTATION_Y, getter = getRotationY, setter = setRotationY \<rparr>,
       \<lparr> dirtyMask = RenderNode_X, getter = getX, setter = setX \<rparr>,
       \<lparr> dirtyMask = RenderNode_Y, getter = getY, setter = setY \<rparr>,
       \<lparr> dirtyMask = RenderNode_Z, getter = getZ, setter = setZ \<rparr>,
       \<lparr> dirtyMask = RenderNode_ALPHA, getter = getAlpha, setter = setAlpha \<rparr> ]"

text \<open>
  A render node, as far as the animator touches it: the committed properties (read by
  \<^verbatim>\<open>properties\<close>, written through \<^verbatim>\<open>animatorProperties\<close>), the staging properties (read by
  \<^verbatim>\<open>stagingProperties\<close>, written through \<^verbatim>\<open>mutateStagingProperties\<close>) and the dirty fields of the
  staging copy. The properties themselves are of a type \<open>'rp\<close> left open.
\<close>

record 'rp RenderNode =
  mProperties :: 'rp
  mStagingProperties :: 'rp
  mDirtyPropertyFields :: "DirtyPropertyMask set"

text \<open>
  Modelled from the spec: \<^verbatim>\<open>RenderNode::isPropertyFieldDirty\<close> is declared in RenderNode.h,
  which is not among the sources; the spec has it as the query "is this quantity's staging
  value dirty", keyed by a dirty-mask bit.
\<close>

definition isPropertyFieldDirty :: "'rp RenderNode \<Rightarrow> DirtyPropertyMask \<Rightarrow> bool" where
  "isPropertyFieldDirty target field = (field \<in> mDirtyPropertyFields target)"

record RenderPropertyAnimator =
  base :: BaseRenderNodeAnimator
  mPropertyAccess :: PropertyAccessors

definition new_RenderPropertyAnimator :: "RenderProperty \<Rightarrow> float \<Rightarrow> RenderPropertyAnimator" where
  "new_RenderPropertyAnimator property finalValue =
     \<lparr> base = new_BaseRenderNodeAnimator finalValue,
       mPropertyAccess = PROPERTY_ACCESSOR_LUT ! RenderProperty_val property \<rparr>"

text \<open>
  Attachment. The accessors of \<^verbatim>\<open>RenderProperties\<close> are defined in RenderProperties.h,
  which is not among the sources: \<open>rget\<close> and \<open>rset\<close> stand for calling a getter and a
  setter through its member pointer.
\<close>

definition onAttached ::
  "(Getter \<Rightarrow> 'rp \<Rightarrow> float) \<Rightarrow> (Setter \<Rightarrow> 'rp \<Rightarrow> float \<Rightarrow> 'rp) \<Rightarrow> 'rp RenderNode \<Rightarrow>
     RenderPropertyAnimator \<Rightarrow> error + (RenderPropertyAnimator \<times> 'rp RenderNode)" where
  "onAttached rget rset target a =
     (case (if \<not> mHasStartValue (base a)
               \<and> isPropertyFieldDirty target (dirtyMask (mPropertyAccess a))
            then setStartValue (rget (getter (mPropertyAccess a)) (mStagingProperties target)) (base a)
            else Inr (base a)) of
        Inl e \<Rightarrow> Inl e
      | Inr b \<Rightarrow>
          Inr (a\<lparr>base := b\<rparr>,
               target\<lparr>mStagingProperties :=
                 rset (setter (mPropertyAccess a)) (mStagingProperties target) (mFinalValue b)\<rparr>))"

definition RenderPropertyAnimator_dirtyMask :: "RenderPropertyAnimator \<Rightarrow> DirtyPropertyMask" where
  "RenderPropertyAnimator_dirtyMask a = dirtyMask (mPropertyAccess a)"

definition RenderPropertyAnimator_getValue ::
  "(Getter \<Rightarrow> 'rp \<Rightarrow> float) \<Rightarrow> RenderPropertyAnimator \<Rightarrow> 'rp RenderNode \<Rightarrow> float" where
  "RenderPropertyAnimator_getValue rget a target = rget (getter (mPropertyAccess a)) (mProperties target)"

definition RenderPropertyAnimator_setValue ::
  "(Setter \<Rightarrow> 'rp \<Rightarrow> float \<Rightarrow> 'rp) \<Rightarrow> RenderPropertyAnimator \<Rightarrow> 'rp RenderNode \<Rightarrow> float \<Rightarrow>
     error + 'rp RenderNode" where
  "RenderPropertyAnimator_setValue rset a target v =
     Inr (target\<lparr>mProperties := rset (setter (mPropertyAccess a)) (mProperties target) v\<rparr>)"

text \<open>
  Modelled from the spec: the accessors of RenderProperties.h, which is not among the
  sources. The spec has the target expose \<open>get(quantityId)\<close> and \<open>set(quantityId, float)\<close>:
  the properties are a table from quantity to value, a getter reads its quantity and a
  setter stores into it. The dirty mask of a quantity is, one bit per property, the
  enumerator of the same name.
\<close>

type_synonym RenderProperties = "RenderProperty \<Rightarrow> float"

fun Getter_property :: "Getter \<Rightarrow> RenderProperty" where
  "Getter_property getTranslationX = TRANSLATION_X"
| "Getter_property getTranslationY = TRANSLATION_Y"
| "Getter_property getTranslationZ = TRANSLATION_Z"
| "Getter_property getScaleX = SCALE_X"
| "Getter_property getScaleY = SCALE_Y"
| "Getter_property getRotation = ROTATION"
| "Getter_property getRotationX = ROTATION_X"
| "Getter_property getRotationY = ROTATION_Y"
| "Getter_property getX = X"
| "Getter_property getY = Y"
| "Getter_property getZ = Z"
| "Getter_property getAlpha = ALPHA"

fun Setter_property :: "Setter \<Rightarrow> RenderProperty" where
  "Setter_property setTranslationX = TRANSLATION_X"
| "Setter_property setTranslationY = TRANSLATION_Y"
| "Setter_property setTranslationZ = TRANSLATION_Z"
| "Setter_property setScaleX = SCALE_X"
| "Setter_property setScaleY = SCALE_Y"
| "Setter_property setRotation = ROTATION"
| "Setter_property setRotationX = ROTATION_X"
| "Setter_property setRotationY = ROTATION_Y"
| "Setter_property setX = X"
| "Setter_property setY = Y"
| "Setter_property setZ = Z"
| "Setter_property setAlpha = ALPHA"

definition RenderProperties_get :: "Getter \<Rightarrow> RenderProperties \<Rightarrow> float" where
  "RenderProperties_get g props = props (Getter_property g)"

definition RenderProperties_set :: "Setter \<Rightarrow> RenderProperties \<Rightarrow> float \<Rightarrow> RenderProperties" where
  "RenderProperties_set s props v = props(Setter_property s := v)"

fun RenderProperty_mask :: "RenderProperty \<Rightarrow> DirtyPropertyMask" where
  "RenderProperty_mask TRANSLATION_X = RenderNode_TRANSLATION_X"
| "RenderProperty_mask TRANSLATION_Y = RenderNode_TRANSLATION_Y"
| "RenderProperty_mask TRANSLATION_Z = RenderNode_TRANSLATION_Z"
| "RenderProperty_mask SCALE_X = RenderNode_SCALE_X"
| "RenderProperty_mask SCALE_Y = RenderNode_SCALE_Y"
| "RenderProperty_mask ROTATION = RenderNode_ROTATION"
| "RenderProperty_mask ROTATION_X = RenderNode_ROTATION_X"
| "RenderProperty_mask ROTATION_Y = RenderNode_ROTATION_Y"
| "RenderProperty_mask X = RenderNode_X"
| "RenderProperty_mask Y = RenderNode_Y"
| "RenderProperty_mask Z = RenderNode_Z"
| "RenderProperty_mask ALPHA = RenderNode_ALPHA"

section \<open>The canvas-property animators\<close>

text \<open>A free-standing cell; the animator reads and writes it and ignores the target.\<close>

record CanvasPropertyPrimitive =
  primitive_value :: float

definition CanvasPropertyPrimitiveAnimator_getValue :: "CanvasPropertyPrimitive \<Rightarrow> float" where
  "CanvasPropertyPrimitiveAnimator_getValue mProperty = primitive_value mProperty"

definition CanvasPropertyPrimitiveAnimator_setValue ::
  "CanvasPropertyPrimitive \<Rightarrow> float \<Rightarrow> error + CanvasPropertyPrimitive" where
  "CanvasPropertyPrimitiveAnimator_setValue mProperty v = Inr (mProperty\<lparr>primitive_value := v\<rparr>)"

text \<open>
  The paint of a \<^verbatim>\<open>CanvasPropertyPaint\<close> is an \<^verbatim>\<open>SkPaint\<close> of the Skia library; of it the
  animator uses the stroke width, a float, and the alpha, an 8-bit channel, each read and
  written as a field.
\<close>

record SkPaint =
  strokeWidth :: float
  alpha :: "8 word"

text \<open>The enumeration \<^verbatim>\<open>PaintField\<close>; \<open>PAINT_ALPHA\<close> is its enumerator \<^verbatim>\<open>ALPHA\<close>.\<close>

datatype PaintField = STROKE_WIDTH | PAINT_ALPHA

text \<open>
  Both \<^verbatim>\<open>switch\<close> statements cover the two enumerators, so the \<^verbatim>\<open>LOG_ALWAYS_FATAL\<close> after
  them is out of reach of a \<open>PaintField\<close>.
\<close>

definition CanvasPropertyPaintAnimator_getValue :: "PaintField \<Rightarrow> SkPaint \<Rightarrow> float" where
  "CanvasPropertyPaintAnimator_getValue mField paint =
     (case mField of
        STROKE_WIDTH \<Rightarrow> strokeWidth paint
      | PAINT_ALPHA \<Rightarrow> to_float (of_nat (unat (alpha paint))))"

definition to_uint8 :: "float \<Rightarrow> error + 8 word" where
  "to_uint8 v =
     (case float_to_int (fadd v (Finite (1 / 2))) of
        None \<Rightarrow> Inl UndefinedConversion
      | Some c \<Rightarrow> Inr (word_of_int (if c < 0 then 0 else if 255 < c then 255 else c)))"

definition CanvasPropertyPaintAnimator_setValue ::
  "PaintField \<Rightarrow> SkPaint \<Rightarrow> float \<Rightarrow> error + SkPaint" where
  "CanvasPropertyPaintAnimator_setValue mField paint v =
     (case mField of
        STROKE_WIDTH \<Rightarrow> Inr (paint\<lparr>strokeWidth := v\<rparr>)
      | PAINT_ALPHA \<Rightarrow>
          (case to_uint8 v of
             Inl e \<Rightarrow> Inl e
           | Inr c \<Rightarrow> Inr (paint\<lparr>alpha := c\<rparr>)))"

section \<open>The progress fraction\<close>

text \<open>
  The quotient \<^verbatim>\<open>(float) elapsed / duration\<close> as the code computes it: both integers are
  converted to single precision, and the quotient of the two is rounded once more.
\<close>

definition fraction_rat :: "int \<Rightarrow> int \<Rightarrow> rat" where
  "fraction_rat elapsed duration =
     round_rat (round_rat (of_int elapsed) / round_rat (of_int duration))"

section \<open>Sample objects\<close>

text \<open>A frame context at a given time, with no animation hook.\<close>

definition frame :: "nsecs_t \<Rightarrow> TreeInfo" where
  "frame t = \<lparr> frameTimeMs = t, hasAnimations = False, animationHook = None \<rparr>"

text \<open>
  An animator from 20 to 100 over 1000 ms, running since time 0, with the identity as
  its interpolator and a listener.
\<close>

definition running_example :: BaseRenderNodeAnimator where
  "running_example =
     \<lparr> mFinalValue = Finite 100, mDeltaValue = Finite 80, mFromValue = Finite 20,
       mInterpolator = Some (\<lambda>x. x), mStagingPlayState = RUNNING, mPlayState = RUNNING,
       mHasStartValue = True, mStartTime = 0, mDuration = 1000, mStartDelay = 0,
       mListener = Some 7 \<rparr>"

text \<open>A render node whose staging translation in y was edited (to 3) and not yet committed.\<close>

definition node_example :: "RenderProperties RenderNode" where
  "node_example =
     \<lparr> mProperties = (\<lambda>q. Finite 0), mStagingProperties = (\<lambda>q. Finite 3),
       mDirtyPropertyFields = {RenderNode_TRANSLATION_Y} \<rparr>"

text \<open>
  An animator towards 0.1 (the single-precision number nearest to it), with the identity
  as its interpolator, started but not yet committed; and the same animator after the
  commit at frame 1000 on a target whose value is 1.
\<close>

definition fade_started :: BaseRenderNodeAnimator where
  "fade_started =
     (new_BaseRenderNodeAnimator (to_float (1 / 10)))
       \<lparr>mInterpolator := Some (\<lambda>x. x), mStagingPlayState := RUNNING\<rparr>"

definition fade_running :: BaseRenderNodeAnimator where
  "fade_running =
     \<lparr> mFinalValue = Finite (13421773 / 134217728), mDeltaValue = Finite (- (7549747 / 8388608)),
       mFromValue = Finite 1, mInterpolator = Some (\<lambda>x. x), mStagingPlayState = RUNNING,
       mPlayState = RUNNING, mHasStartValue = True, mStartTime = 1000, mDuration = 300,
       mStartDelay = 0, mListener = None \<rparr>"

text \<open>
  The same with a duration of 0, committed on a target whose value is 100.
\<close>

definition instant_started :: BaseRenderNodeAnimator where
  "instant_started =
     (new_BaseRenderNodeAnimator (to_float (1 / 10)))
       \<lparr>mInterpolator := Some (\<lambda>x. x), mStagingPlayState := RUNNING, mDuration := 0\<rparr>"

definition instant_running :: BaseRenderNodeAnimator where
  "instant_running =
     \<lparr> mFinalValue = Finite (13421773 / 134217728), mDeltaValue = Finite (- (13094093 / 131072)),
       mFromValue = Finite 100, mInterpolator = Some (\<lambda>x. x), mStagingPlayState = RUNNING,
       mPlayState = RUNNING, mHasStartValue = True, mStartTime = 1000, mDuration = 0,
       mStartDelay = 0, mListener = None \<rparr>"

text \<open>
  The paint scenario: a stroke-width animator from 1.0 to 5.0 with duration 0, running
  since frame 1000.
\<close>

definition stroke_running :: BaseRenderNodeAnimator where
  "stroke_running =
     \<lparr> mFinalValue = Finite 5, mDeltaValue = Finite 4, mFromValue = Finite 1,
       mInterpolator = Some (\<lambda>x. x), mStagingPlayState = RUNNING, mPlayState = RUNNING,
       mHasStartValue = True, mStartTime = 1000, mDuration = 0, mStartDelay = 0,
       mListener = None \<rparr>"

section \<open>Rounding\<close>

text \<open>
  That \<open>round_rat\<close> is the rounding of IEEE 754 binary32 is proved in this section: its
  value has a significand of at most 24 bits (\<open>round_rat_form\<close>), every such number is
  left alone (\<open>round_rat_representable\<close>), none of them is nearer to the argument
  (\<open>round_rat_nearest\<close>), and a tie goes to the even significand (\<open>rne_tie_even\<close>). It is
  monotone (\<open>round_rat_mono\<close>), which is what the progress fraction needs.
\<close>

text \<open>Powers of two and the binary exponent.\<close>

lemma pow2_powi: "pow2 k = 2 powi k"
  by (simp add: pow2_def power_int_def power_divide inverse_eq_divide)

lemma pow2_pos: "0 < pow2 k"
  by (simp add: pow2_powi)

lemma pow2_add: "pow2 (a + b) = pow2 a * pow2 b"
  by (simp add: pow2_powi power_int_add)

lemma pow2_mono: "a \<le> b \<Longrightarrow> pow2 a \<le> pow2 b"
  by (simp add: pow2_powi power_int_increasing)

lemma pow2_less_imp: "pow2 a < pow2 b \<Longrightarrow> a < b"
  using pow2_mono[of b a] by (cases "a < b") auto

lemma pow2_of_nat: "0 \<le> k \<Longrightarrow> pow2 k = of_int (2 ^ nat k)"
  by (simp add: pow2_def)

lemma pow2_ge_of_int: "0 \<le> k \<Longrightarrow> 2 ^ nat k \<le> n \<Longrightarrow> pow2 k \<le> of_int n"
proof -
  assume "0 \<le> k" "2 ^ nat k \<le> n"
  then have "(of_int (2 ^ nat k) :: rat) \<le> of_int n" by (simp only: of_int_le_iff)
  then show ?thesis using \<open>0 \<le> k\<close> by (simp only: pow2_of_nat)
qed

lemma pow2_gt_of_int: "0 \<le> k \<Longrightarrow> n < 2 ^ nat k \<Longrightarrow> of_int n < pow2 k"
proof -
  assume "0 \<le> k" "n < 2 ^ nat k"
  then have "(of_int n :: rat) < of_int (2 ^ nat k)" by (simp only: of_int_less_iff)
  then show ?thesis using \<open>0 \<le> k\<close> by (simp only: pow2_of_nat)
qed

lemma ilog2_bounds:
  assumes "0 < x"
  shows "pow2 (ilog2 x) \<le> x \<and> x < pow2 (ilog2 x + 1)"
proof -
  obtain p q where pq: "quotient_of x = (p, q)" by (cases "quotient_of x")
  then have q: "0 < q" and x: "x = of_int p / of_int q"
    using quotient_of_denom_pos quotient_of_div by auto
  with assms have p: "0 < p" by (simp add: zero_less_divide_iff)
  define bp bq where "bp = bitlen p" and "bq = bitlen q"
  from bitlen_bounds[OF p] have bp: "2 ^ nat (bp - 1) \<le> p" "p < 2 ^ nat bp"
    by (simp_all add: bp_def)
  from bitlen_bounds[OF q] have bq: "2 ^ nat (bq - 1) \<le> q" "q < 2 ^ nat bq"
    by (simp_all add: bq_def)
  have bp1: "1 \<le> bp" using p by (auto simp: bp_def bitlen_alt_def)
  have bq1: "1 \<le> bq" using q by (auto simp: bq_def bitlen_alt_def)
  have P1: "pow2 (bp - 1) \<le> of_int p" using bp(1) bp1 by (intro pow2_ge_of_int) simp_all
  have P2: "of_int p < pow2 bp" using bp(2) bp1 by (intro pow2_gt_of_int) simp_all
  have Q1: "pow2 (bq - 1) \<le> of_int q" using bq(1) bq1 by (intro pow2_ge_of_int) simp_all
  have Q2: "of_int q < pow2 bq" using bq(2) bq1 by (intro pow2_gt_of_int) simp_all
  have qpos: "(0::rat) < of_int q" using q by simp
  have up: "x < pow2 (bp - bq + 1)"
  proof -
    have "pow2 (bp - bq + 1) * of_int q \<ge> pow2 (bp - bq + 1) * pow2 (bq - 1)"
      using Q1 pow2_pos[of "bp - bq + 1"] by simp
    then have "pow2 bp \<le> pow2 (bp - bq + 1) * of_int q"
      by (simp flip: pow2_add)
    with P2 have "of_int p < pow2 (bp - bq + 1) * of_int q" by simp
    then show ?thesis using qpos by (simp add: x pos_divide_less_eq)
  qed
  have lo: "pow2 (bp - bq - 1) < x"
  proof -
    have "pow2 (bp - bq - 1) * of_int q < pow2 (bp - bq - 1) * pow2 bq"
      using Q2 pow2_pos[of "bp - bq - 1"] by simp
    then have "pow2 (bp - bq - 1) * of_int q < pow2 (bp - 1)"
      by (simp flip: pow2_add)
    with P1 have "pow2 (bp - bq - 1) * of_int q < of_int p" by simp
    then show ?thesis using qpos by (simp add: x pos_less_divide_eq)
  qed
  show ?thesis
  proof (cases "pow2 (bp - bq) \<le> x")
    case True
    then have "ilog2 x = bp - bq" by (simp add: ilog2_def pq bp_def bq_def Let_def)
    with True up show ?thesis by simp
  next
    case False
    then have "ilog2 x = bp - bq - 1" by (simp add: ilog2_def pq bp_def bq_def Let_def)
    with False lo show ?thesis by simp
  qed
qed

lemma ilog2_mono: "0 < x \<Longrightarrow> x \<le> y \<Longrightarrow> ilog2 x \<le> ilog2 y"
proof -
  assume a: "0 < x" "x \<le> y"
  from ilog2_bounds[of x] ilog2_bounds[of y] a
  have "pow2 (ilog2 x) < pow2 (ilog2 y + 1)" by linarith
  from pow2_less_imp[OF this] show ?thesis by simp
qed


lemma rne_of_int: "rne (of_int n) = n"
  by (simp add: rne_def)

lemma rne_mono: "q \<le> r \<Longrightarrow> rne q \<le> rne r"
proof -
  assume le: "q \<le> r"
  have fl: "\<lfloor>q\<rfloor> \<le> \<lfloor>r\<rfloor>" using le by (rule floor_mono)
  show ?thesis
  proof (cases "\<lfloor>q\<rfloor> = \<lfloor>r\<rfloor>")
    case True
    with le show ?thesis by (auto simp: rne_def Let_def)
  next
    case False
    with fl have "\<lfloor>q\<rfloor> + 1 \<le> \<lfloor>r\<rfloor>" by simp
    moreover have "rne q \<le> \<lfloor>q\<rfloor> + 1" by (auto simp: rne_def Let_def)
    moreover have "\<lfloor>r\<rfloor> \<le> rne r" by (auto simp: rne_def Let_def)
    ultimately show ?thesis by linarith
  qed
qed

lemma rne_ge: "of_int n \<le> q \<Longrightarrow> n \<le> rne q"
  using rne_mono[of "of_int n" q] by (simp add: rne_of_int)

lemma rne_le: "q \<le> of_int n \<Longrightarrow> rne q \<le> n"
  using rne_mono[of q "of_int n"] by (simp add: rne_of_int)


lemma scaled_rne_le:
  assumes "0 < u" "x \<le> of_int n * u"
  shows "of_int (rne (x / u)) * u \<le> of_int n * u"
proof -
  from assms have "x / u \<le> of_int n" by (simp add: pos_divide_le_eq)
  then have "rne (x / u) \<le> n" by (rule rne_le)
  then have "(of_int (rne (x / u)) :: rat) \<le> of_int n" by simp
  then show ?thesis using assms(1) by (simp add: mult_right_mono)
qed

lemma scaled_rne_ge:
  assumes "0 < u" "of_int n * u \<le> x"
  shows "of_int n * u \<le> of_int (rne (x / u)) * u"
proof -
  from assms have "of_int n \<le> x / u" by (simp add: pos_le_divide_eq)
  then have "n \<le> rne (x / u)" by (rule rne_ge)
  then have "(of_int n :: rat) \<le> of_int (rne (x / u))" by simp
  then show ?thesis using assms(1) by (simp add: mult_right_mono)
qed

lemma pow2_24: "pow2 (e + 1) = of_int 16777216 * pow2 (e - 23)"
proof -
  have "e + 1 = 24 + (e - 23)" by simp
  then have "pow2 (e + 1) = pow2 (24 + (e - 23))" by (rule arg_cong)
  also have "\<dots> = pow2 24 * pow2 (e - 23)" by (rule pow2_add)
  also have "pow2 24 = of_int 16777216" by (simp add: pow2_def)
  finally show ?thesis .
qed

lemma pow2_23: "pow2 e = of_int 8388608 * pow2 (e - 23)"
proof -
  have "e = 23 + (e - 23)" by simp
  then have "pow2 e = pow2 (23 + (e - 23))" by (rule arg_cong)
  also have "\<dots> = pow2 23 * pow2 (e - 23)" by (rule pow2_add)
  also have "pow2 23 = of_int 8388608" by (simp add: pow2_def)
  finally show ?thesis .
qed

lemma round_rat_pos:
  "0 < x \<Longrightarrow> round_rat x =
     of_int (rne (x / pow2 (max (ilog2 x) (- 126) - 23))) * pow2 (max (ilog2 x) (- 126) - 23)"
  by (simp add: round_rat_def ulp_exp_def)

lemma round_rat_zero: "round_rat 0 = 0"
  by (simp add: round_rat_def)

lemma round_rat_nonneg: "0 \<le> x \<Longrightarrow> 0 \<le> round_rat x"
proof (cases "x = 0")
  case True
  then show ?thesis by (simp add: round_rat_zero)
next
  case False
  assume "0 \<le> x"
  with False have x: "0 < x" by simp
  define u where "u = pow2 (max (ilog2 x) (- 126) - 23)"
  have u: "0 < u" by (simp add: u_def pow2_pos)
  from scaled_rne_ge[OF u, of 0 x] x have "0 \<le> of_int (rne (x / u)) * u" by simp
  then show ?thesis by (simp add: round_rat_pos[OF x] u_def)
qed

lemma round_rat_upper:
  assumes "0 < x"
  shows "round_rat x \<le> pow2 (max (ilog2 x) (- 126) + 1)"
proof -
  define e where "e = max (ilog2 x) (- 126)"
  have "x < pow2 (ilog2 x + 1)" using ilog2_bounds[OF assms] by simp
  also have "\<dots> \<le> pow2 (e + 1)" by (rule pow2_mono) (simp add: e_def)
  finally have "x \<le> of_int 16777216 * pow2 (e - 23)" by (simp add: pow2_24)
  from scaled_rne_le[OF pow2_pos this] show ?thesis
    by (simp add: round_rat_pos[OF assms] pow2_24[of "max (ilog2 x) (- 126)"] e_def)
qed

lemma round_rat_lower:
  assumes "0 < x" "- 126 \<le> ilog2 x"
  shows "pow2 (ilog2 x) \<le> round_rat x"
proof -
  have e: "max (ilog2 x) (- 126) = ilog2 x" using assms(2) by simp
  have "pow2 (ilog2 x) \<le> x" using ilog2_bounds[OF assms(1)] by simp
  then have "of_int 8388608 * pow2 (ilog2 x - 23) \<le> x" by (simp add: pow2_23[of "ilog2 x"])
  from scaled_rne_ge[OF pow2_pos this] show ?thesis
    by (simp add: round_rat_pos[OF assms(1)] e pow2_23[of "ilog2 x"])
qed

lemma round_rat_mono_pos:
  assumes "0 < x" "x \<le> y"
  shows "round_rat x \<le> round_rat y"
proof -
  from assms have y: "0 < y" by simp
  define ex ey where "ex = max (ilog2 x) (- 126)" and "ey = max (ilog2 y) (- 126)"
  have exy: "ex \<le> ey" using ilog2_mono[OF assms] by (simp add: ex_def ey_def)
  show ?thesis
  proof (cases "ex = ey")
    case True
    define u where "u = pow2 (ex - 23)"
    have u: "0 < u" by (simp add: u_def pow2_pos)
    have "x / u \<le> y / u" using assms(2) u by (simp add: divide_right_mono)
    then have "rne (x / u) \<le> rne (y / u)" by (rule rne_mono)
    then have "(of_int (rne (x / u)) :: rat) \<le> of_int (rne (y / u))" by simp
    then have "of_int (rne (x / u)) * u \<le> of_int (rne (y / u)) * u"
      using u by (simp add: mult_right_mono)
    then show ?thesis
      using True by (simp add: round_rat_pos[OF assms(1)] round_rat_pos[OF y] u_def ex_def ey_def)
  next
    case False
    with exy have lt: "ex + 1 \<le> ey" by simp
    then have ey': "- 126 \<le> ilog2 y" "ey = ilog2 y" by (auto simp: ex_def ey_def)
    have "round_rat x \<le> pow2 (ex + 1)" using round_rat_upper[OF assms(1)] by (simp add: ex_def)
    also have "\<dots> \<le> pow2 ey" using lt by (rule pow2_mono)
    also have "\<dots> \<le> round_rat y" using round_rat_lower[OF y ey'(1)] by (simp add: ey'(2))
    finally show ?thesis .
  qed
qed

lemma round_rat_mono_nonneg:
  assumes "0 \<le> x" "x \<le> y"
  shows "round_rat x \<le> round_rat y"
proof (cases "x = 0")
  case True
  with assms round_rat_nonneg[of y] show ?thesis by (simp add: round_rat_zero)
next
  case False
  with assms have "0 < x" by simp
  then show ?thesis using assms(2) by (rule round_rat_mono_pos)
qed

lemma round_rat_1: "round_rat 1 = 1"
  by code_simp

lemma round_rat_2_63: "round_rat 9223372036854775808 = 9223372036854775808"
  by code_simp

text \<open>The rounding is odd, monotone on all rationals, and correct to half a unit.\<close>

lemma rne_minus: "rne (- q) = - rne q"
proof (cases "q = of_int \<lfloor>q\<rfloor>")
  case True
  then obtain n where "q = of_int n" ..
  then show ?thesis by (simp add: rne_of_int flip: of_int_minus)
next
  case False
  then have c: "\<lceil>q\<rceil> = \<lfloor>q\<rfloor> + 1" by (simp add: ceiling_altdef)
  have f: "\<lfloor>- q\<rfloor> = - \<lfloor>q\<rfloor> - 1" using c by (simp add: floor_minus)
  show ?thesis
    by (auto simp: rne_def Let_def f)
qed

lemma rne_error: "\<bar>of_int (rne q) - q\<bar> \<le> 1 / 2"
proof -
  define f where "f = \<lfloor>q\<rfloor>"
  have b: "of_int f \<le> q" "q < of_int f + 1" unfolding f_def by linarith+
  have "rne q = (if q - of_int f < 1 / 2 then f else if 1 / 2 < q - of_int f then f + 1
                 else if even f then f else f + 1)"
    by (simp add: rne_def Let_def f_def)
  then show ?thesis using b by (auto simp: abs_if)
qed

lemma ulp_exp_minus: "ulp_exp (- x) = ulp_exp x"
  by (simp add: ulp_exp_def)

lemma round_rat_minus: "round_rat (- x) = - round_rat x"
  by (simp add: round_rat_def ulp_exp_minus rne_minus)


text \<open>The rounded value is within half a unit in the last place.\<close>

lemma round_rat_error: "\<bar>round_rat x - x\<bar> \<le> pow2 (ulp_exp x) / 2"
proof (cases "x = 0")
  case True
  then show ?thesis using pow2_pos[of "ulp_exp 0"] by (simp add: round_rat_zero)
next
  case False
  define u where "u = pow2 (ulp_exp x)"
  have u: "0 < u" by (simp add: u_def pow2_pos)
  have "round_rat x - x = (of_int (rne (x / u)) - x / u) * u"
    using False u by (simp add: round_rat_def u_def field_simps)
  then have "\<bar>round_rat x - x\<bar> = \<bar>of_int (rne (x / u)) - x / u\<bar> * u"
    using u by (simp add: abs_mult)
  also have "\<dots> \<le> (1 / 2) * u" using rne_error[of "x / u"] u by (intro mult_right_mono) simp_all
  finally show ?thesis by (simp add: u_def)
qed



lemma rne_nearest: "\<bar>of_int (rne q) - q\<bar> \<le> \<bar>of_int k - q\<bar>"
proof -
  define f where "f = \<lfloor>q\<rfloor>"
  have b: "of_int f \<le> q" "q < of_int f + 1" unfolding f_def by linarith+
  have r: "rne q = (if q - of_int f < 1 / 2 then f else if 1 / 2 < q - of_int f then f + 1
                 else if even f then f else f + 1)"
    by (simp add: rne_def Let_def f_def)
  consider "k \<le> f" | "f + 1 \<le> k" by linarith
  then show ?thesis
  proof cases
    case 1
    then have "(of_int k :: rat) \<le> of_int f" by simp
    then show ?thesis using b by (auto simp: r abs_if)
  next
    case 2
    then have "(of_int f :: rat) + 1 \<le> of_int k" by (metis of_int_1 of_int_add of_int_le_iff)
    then show ?thesis using b by (auto simp: r abs_if)
  qed
qed

lemma rne_tie_even: "q - of_int \<lfloor>q\<rfloor> = 1 / 2 \<Longrightarrow> even (rne q)"
  by (simp add: rne_def Let_def)

text \<open>
  The rounded value is a nearest one: no number \<open>m * 2\<^sup>e\<close> with a significand of at most
  24 bits and an exponent not below that of the subnormal numbers is nearer.
\<close>

lemma round_rat_nearest_pos:
  assumes x: "0 < x" and m: "\<bar>m\<bar> < 16777216" and e: "- 149 \<le> e"
  shows "\<bar>round_rat x - x\<bar> \<le> \<bar>of_int m * pow2 e - x\<bar>"
proof (rule ccontr)
  assume "\<not> ?thesis"
  then have lt: "\<bar>of_int m * pow2 e - x\<bar> < \<bar>round_rat x - x\<bar>" by simp
  define E where "E = max (ilog2 x) (- 126)"
  define u where "u = pow2 (E - 23)"
  define y where "y = of_int m * pow2 e"
  have u: "0 < u" by (simp add: u_def pow2_pos)
  have ue: "ulp_exp x = E - 23" using x by (simp add: ulp_exp_def E_def)
  have err: "\<bar>round_rat x - x\<bar> \<le> u / 2" using round_rat_error[of x] by (simp add: ue u_def)
  have near: "\<bar>y - x\<bar> < u / 2" using lt err by (simp add: y_def)
  have ex: "E - 23 \<le> e"
  proof (cases "E = - 126")
    case True
    then show ?thesis using e by simp
  next
    case False
    then have E: "E = ilog2 x" by (auto simp: E_def max_def split: if_splits)
    have "pow2 E \<le> x" using ilog2_bounds[OF x] by (simp add: E)
    then have "of_int 8388608 * u \<le> x" by (simp add: pow2_23[of E] u_def)
    with near have ylow: "of_int 8388608 * u - u / 2 < y" by (simp add: abs_if split: if_splits)
    have "y \<le> \<bar>of_int m\<bar> * pow2 e" using pow2_pos[of e] by (simp add: y_def abs_if mult_le_0_iff)
    also have "\<dots> \<le> of_int 16777215 * pow2 e"
    proof -
      have "\<bar>m\<bar> \<le> 16777215" using m by simp
      then have "(of_int \<bar>m\<bar> :: rat) \<le> of_int 16777215" by (simp only: of_int_le_iff)
      then show ?thesis using pow2_pos[of e] by (simp add: mult_right_mono)
    qed
    finally have yup: "y \<le> of_int 16777215 * pow2 e" .
    show ?thesis
    proof (rule ccontr)
      assume "\<not> E - 23 \<le> e"
      then have "e + 1 \<le> E - 23" by simp
      then have "pow2 (e + 1) \<le> u" unfolding u_def by (rule pow2_mono)
      then have "2 * pow2 e \<le> u" using pow2_add[of e 1] by (simp add: pow2_def)
      then have "of_int 16777215 * pow2 e \<le> of_int 16777215 * (u / 2)" by simp
      with yup ylow u show False by simp
    qed
  qed
  define k where "k = nat (e - (E - 23))"
  have pk: "pow2 (e - (E - 23)) = of_int (2 ^ k)" using ex by (simp add: pow2_of_nat k_def)
  have "pow2 e = pow2 ((e - (E - 23)) + (E - 23))" by simp
  also have "\<dots> = of_int (2 ^ k) * u" by (simp only: pow2_add pk u_def)
  finally have pe: "pow2 e = of_int (2 ^ k) * u" .
  have yk: "y = of_int (m * 2 ^ k) * u" by (simp add: y_def pe)
  have rr: "round_rat x = of_int (rne (x / u)) * u"
    using x by (simp add: round_rat_pos E_def u_def)
  have "\<bar>round_rat x - x\<bar> = \<bar>of_int (rne (x / u)) - x / u\<bar> * u"
  proof -
    have "round_rat x - x = (of_int (rne (x / u)) - x / u) * u"
      using u by (simp add: rr field_simps)
    then show ?thesis using u by (simp add: abs_mult)
  qed
  also have "\<dots> \<le> \<bar>of_int (m * 2 ^ k) - x / u\<bar> * u"
    using rne_nearest[of "x / u" "m * 2 ^ k"] u by (intro mult_right_mono) simp_all
  also have "\<dots> = \<bar>y - x\<bar>"
  proof -
    have "y - x = (of_int (m * 2 ^ k) - x / u) * u" using u by (simp add: yk field_simps)
    then show ?thesis using u by (simp add: abs_mult)
  qed
  finally show False using lt by (simp add: y_def)
qed

lemma round_rat_nearest:
  assumes "\<bar>m\<bar> < 16777216" "- 149 \<le> e"
  shows "\<bar>round_rat x - x\<bar> \<le> \<bar>of_int m * pow2 e - x\<bar>"
proof -
  consider "x = 0" | "0 < x" | "x < 0" by linarith
  then show ?thesis
  proof cases
    case 1
    then show ?thesis by (simp add: round_rat_zero)
  next
    case 2
    then show ?thesis using assms by (rule round_rat_nearest_pos)
  next
    case 3
    then have "0 < - x" by simp
    from round_rat_nearest_pos[OF this, of "- m" e] assms
    have "\<bar>round_rat (- x) - (- x)\<bar> \<le> \<bar>of_int (- m) * pow2 e - (- x)\<bar>" by simp
    then have "\<bar>- (round_rat x - x)\<bar> \<le> \<bar>- (of_int m * pow2 e - x)\<bar>"
      by (simp add: round_rat_minus)
    then show ?thesis by (simp only: abs_minus_cancel)
  qed
qed

text \<open>The rounded value has a significand of at most 24 bits.\<close>

lemma round_rat_form_pos:
  assumes "0 < x"
  shows "\<exists>n. 0 \<le> n \<and> n \<le> 16777216 \<and> round_rat x = of_int n * pow2 (ulp_exp x)
    \<and> - 149 \<le> ulp_exp x"
proof -
  define E where "E = max (ilog2 x) (- 126)"
  define u where "u = pow2 (E - 23)"
  have u: "0 < u" by (simp add: u_def pow2_pos)
  have ue: "ulp_exp x = E - 23" using assms by (simp add: ulp_exp_def E_def)
  have "x < pow2 (ilog2 x + 1)" using ilog2_bounds[OF assms] by simp
  also have "\<dots> \<le> pow2 (E + 1)" by (rule pow2_mono) (simp add: E_def)
  finally have "x \<le> of_int 16777216 * u" by (simp add: pow2_24 u_def)
  then have "x / u \<le> of_int 16777216" using u by (simp add: pos_divide_le_eq)
  then have hi: "rne (x / u) \<le> 16777216" by (rule rne_le)
  have "of_int 0 \<le> x / u" using assms u by simp
  then have lo: "0 \<le> rne (x / u)" by (rule rne_ge)
  have "round_rat x = of_int (rne (x / u)) * pow2 (ulp_exp x)"
    using assms by (simp add: round_rat_pos ue u_def E_def)
  moreover have "- 149 \<le> ulp_exp x" by (simp add: ue E_def)
  ultimately show ?thesis using lo hi by blast
qed

lemma round_rat_form:
  "\<exists>n. \<bar>n\<bar> \<le> 16777216 \<and> round_rat x = of_int n * pow2 (ulp_exp x) \<and> - 149 \<le> ulp_exp x"
proof -
  consider "x = 0" | "0 < x" | "x < 0" by linarith
  then show ?thesis
  proof cases
    case 1
    have "\<bar>0::int\<bar> \<le> 16777216 \<and> round_rat x = of_int 0 * pow2 (ulp_exp x) \<and> - 149 \<le> ulp_exp x"
      using 1 by (simp add: round_rat_zero ulp_exp_def)
    then show ?thesis by blast
  next
    case 2
    from round_rat_form_pos[OF this] obtain n where
      "0 \<le> n" "n \<le> 16777216" "round_rat x = of_int n * pow2 (ulp_exp x)" "- 149 \<le> ulp_exp x"
      by blast
    then have "\<bar>n\<bar> \<le> 16777216 \<and> round_rat x = of_int n * pow2 (ulp_exp x) \<and> - 149 \<le> ulp_exp x"
      by simp
    then show ?thesis by blast
  next
    case 3
    then have "0 < - x" by simp
    from round_rat_form_pos[OF this] obtain n where
      n: "0 \<le> n" "n \<le> 16777216" "round_rat (- x) = of_int n * pow2 (ulp_exp (- x))"
      "- 149 \<le> ulp_exp (- x)"
      by blast
    then have "\<bar>- n\<bar> \<le> 16777216 \<and> round_rat x = of_int (- n) * pow2 (ulp_exp x)
      \<and> - 149 \<le> ulp_exp x"
      using round_rat_minus[of x] by (simp add: ulp_exp_minus)
    then show ?thesis by blast
  qed
qed






text \<open>Results that stay finite, and the conversion of 64-bit integers.\<close>

lemma to_float_Finite: "\<bar>round_rat x\<bar> < 2 ^ 128 \<Longrightarrow> to_float x = Finite (round_rat x)"
  by (auto simp: to_float_def Let_def)

lemma to_float_is_float: "is_float x \<Longrightarrow> to_float x = Finite x"
  by (simp add: is_float_def to_float_Finite)

lemma round_rat_63:
  assumes "0 \<le> x" "x \<le> 9223372036854775808"
  shows "0 \<le> round_rat x \<and> round_rat x \<le> 9223372036854775808"
  using round_rat_nonneg[OF assms(1)] round_rat_mono_nonneg[OF assms] by (simp add: round_rat_2_63)

lemma round_rat_ge_1: "1 \<le> x \<Longrightarrow> 1 \<le> round_rat x"
  using round_rat_mono_nonneg[of 1 x] by (simp add: round_rat_1)

lemma sint_64_bounds: "- 9223372036854775808 \<le> sint (n :: 64 word) \<and> sint n < 9223372036854775808"
  using sint_ge[of n] sint_lt[of n] by simp

lemma float_of_int64_nonneg:
  assumes "0 \<le> sint n"
  shows "float_of_int64 n = Finite (round_rat (of_int (sint n)))"
proof -
  have "(of_int (sint n) :: rat) \<le> of_int 9223372036854775808"
    using sint_64_bounds[of n] by (simp only: of_int_le_iff) simp
  then have le: "(of_int (sint n) :: rat) \<le> 9223372036854775808" by (simp del: of_int_sint)
  have ge: "(0::rat) \<le> of_int (sint n)" using assms by (simp only: of_int_0_le_iff)
  from round_rat_63[OF ge le] have "\<bar>round_rat (of_int (sint n))\<bar> < 2 ^ 128" by (simp del: of_int_sint)
  then show ?thesis unfolding float_of_int64_def by (rule to_float_Finite)
qed

lemma sint_sub_no_wrap:
  assumes "0 \<le> sint (s :: 64 word)" "sint s \<le> sint (t :: 64 word)"
  shows "sint (t - s) = sint t - sint s"
proof -
  have "sint (t - s) = signed_take_bit 63 (sint t - sint s)"
    by (simp add: sint_word_ariths)
  moreover have "- (2 ^ 63) \<le> sint t - sint s" "sint t - sint s < 2 ^ 63"
    using assms sint_64_bounds[of t] sint_64_bounds[of s] by simp_all
  ultimately show ?thesis by (simp add: signed_take_bit_int_eq_self)
qed


lemma float_of_int64_pos:
  assumes "0 < sint n"
  shows "1 \<le> round_rat (of_int (sint n))"
proof -
  from assms have "1 \<le> sint n" by simp
  then have "(1::rat) \<le> of_int (sint n)" by (simp only: of_int_1_le_iff)
  then show ?thesis by (rule round_rat_ge_1)
qed

text \<open>The quotient of a non-negative by a positive 64-bit integer.\<close>

lemma fraction_rat_bounds:
  assumes "0 \<le> T" "T < 9223372036854775808" "0 < D" "D < 9223372036854775808"
  shows "0 \<le> fraction_rat T D \<and> fraction_rat T D \<le> 9223372036854775808"
proof -
  have T: "(0::rat) \<le> of_int T" "(of_int T :: rat) \<le> 9223372036854775808"
    using assms by simp_all
  have D: "(1::rat) \<le> of_int D" using assms by simp
  from round_rat_63[OF T] have a: "0 \<le> round_rat (of_int T)" "round_rat (of_int T) \<le> 9223372036854775808"
    by simp_all
  from round_rat_ge_1[OF D] have b: "1 \<le> round_rat (of_int D)" .
  have q0: "0 \<le> round_rat (of_int T) / round_rat (of_int D)" using a b by simp
  have "round_rat (of_int T) / round_rat (of_int D) \<le> round_rat (of_int T) / 1"
    using a(1) b by (intro divide_left_mono) simp_all
  then have q1: "round_rat (of_int T) / round_rat (of_int D) \<le> 9223372036854775808"
    using a(2) by simp
  from round_rat_63[OF q0 q1] show ?thesis by (simp add: fraction_rat_def)
qed

lemma fraction_rat_mono:
  assumes "0 \<le> T" "T \<le> T'" "0 < D"
  shows "fraction_rat T D \<le> fraction_rat T' D"
proof -
  have "(0::rat) \<le> of_int T" "(of_int T :: rat) \<le> of_int T'" using assms by simp_all
  then have a: "0 \<le> round_rat (of_int T)" "round_rat (of_int T) \<le> round_rat (of_int T')"
    by (simp_all add: round_rat_nonneg round_rat_mono_nonneg)
  have "(1::rat) \<le> of_int D" using assms by simp
  then have b: "1 \<le> round_rat (of_int D)" by (rule round_rat_ge_1)
  have "round_rat (of_int T) / round_rat (of_int D) \<le> round_rat (of_int T') / round_rat (of_int D)"
    using a b by (simp add: divide_right_mono)
  moreover have "0 \<le> round_rat (of_int T) / round_rat (of_int D)" using a b by simp
  ultimately show ?thesis unfolding fraction_rat_def by (intro round_rat_mono_nonneg)
qed

lemma fraction_rat_ge_1:
  assumes "0 < D" "D \<le> T"
  shows "1 \<le> fraction_rat T D"
proof -
  have "(1::rat) \<le> of_int D" "(of_int D :: rat) \<le> of_int T" using assms by simp_all
  then have b: "1 \<le> round_rat (of_int D)" "round_rat (of_int D) \<le> round_rat (of_int T)"
    by (simp_all add: round_rat_ge_1 round_rat_mono_nonneg)
  then have "1 \<le> round_rat (of_int T) / round_rat (of_int D)" by simp
  then show ?thesis unfolding fraction_rat_def by (rule round_rat_ge_1)
qed

lemma raw_fraction_running:
  assumes "mPlayState a = RUNNING" "0 <s mDuration a" "0 \<le>s mStartTime a"
    and "mStartTime a \<le>s frameTimeMs info"
  shows "raw_fraction info a =
    Finite (fraction_rat (sint (frameTimeMs info) - sint (mStartTime a)) (sint (mDuration a)))"
proof -
  have s: "0 \<le> sint (mStartTime a)" "sint (mStartTime a) \<le> sint (frameTimeMs info)"
    and d: "0 < sint (mDuration a)"
    using assms by (simp_all add: word_sle_eq word_sless_alt)
  have sub: "sint (frameTimeMs info - mStartTime a) = sint (frameTimeMs info) - sint (mStartTime a)"
    using s by (rule sint_sub_no_wrap)
  have T: "0 \<le> sint (frameTimeMs info - mStartTime a)" using s sub by simp
  have n: "float_of_int64 (frameTimeMs info - mStartTime a) =
      Finite (round_rat (of_int (sint (frameTimeMs info) - sint (mStartTime a))))"
    using float_of_int64_nonneg[OF T] by (simp only: sub)
  have dn: "float_of_int64 (mDuration a) = Finite (round_rat (of_int (sint (mDuration a))))"
    using d by (intro float_of_int64_nonneg) simp
  have b: "1 \<le> round_rat (of_int (sint (mDuration a)))" using d by (rule float_of_int64_pos)
  have bnd: "0 \<le> fraction_rat (sint (frameTimeMs info) - sint (mStartTime a)) (sint (mDuration a))
    \<and> fraction_rat (sint (frameTimeMs info) - sint (mStartTime a)) (sint (mDuration a))
        \<le> 9223372036854775808"
    using s d sint_64_bounds[of "frameTimeMs info"] sint_64_bounds[of "mDuration a"]
    by (intro fraction_rat_bounds) simp_all
  then have "\<bar>round_rat (round_rat (of_int (sint (frameTimeMs info) - sint (mStartTime a)))
      / round_rat (of_int (sint (mDuration a))))\<bar> < 2 ^ 128"
    by (simp add: fraction_rat_def del: of_int_sint of_int_diff)
  then have "to_float (round_rat (of_int (sint (frameTimeMs info) - sint (mStartTime a)))
      / round_rat (of_int (sint (mDuration a)))) =
     Finite (fraction_rat (sint (frameTimeMs info) - sint (mStartTime a)) (sint (mDuration a)))"
    unfolding fraction_rat_def by (rule to_float_Finite)
  moreover have "round_rat (of_int (sint (mDuration a))) \<noteq> 0" using b by simp
  ultimately show ?thesis
    using assms(1,2) by (simp only: raw_fraction_def n dn fdiv.simps if_True if_False simp_thms)
qed


lemma round_rat_of_int_small:
  assumes "0 \<le> n" "n < 16777216"
  shows "round_rat (of_int n) = of_int n"
proof (cases "n = 0")
  case True
  then show ?thesis by (simp add: round_rat_zero)
next
  case False
  with assms have n: "0 < n" by simp
  then have x: "(0::rat) < of_int n" by simp
  define e where "e = ilog2 (of_int n)"
  have b: "pow2 e \<le> of_int n" "of_int n < pow2 (e + 1)"
    using ilog2_bounds[OF x] by (simp_all add: e_def)
  have "pow2 0 \<le> of_int n" using n by (simp add: pow2_def)
  with b(2) have "pow2 0 < pow2 (e + 1)" by linarith
  then have e0: "0 \<le> e" using pow2_less_imp[of 0 "e + 1"] by simp
  have "(of_int n :: rat) < pow2 24" using assms(2) by (simp add: pow2_def)
  with b(1) have "pow2 e < pow2 24" by linarith
  then have e23: "e \<le> 23" using pow2_less_imp[of e 24] by simp
  define k where "k = nat (23 - e)"
  have "pow2 (23 - e) * pow2 (e - 23) = pow2 0" by (simp flip: pow2_add)
  then have inv: "pow2 (23 - e) * pow2 (e - 23) = 1" by (simp add: pow2_def)
  have pk: "pow2 (23 - e) = of_int (2 ^ k)" using e23 by (simp add: pow2_of_nat k_def)
  have "of_int n / pow2 (e - 23) = of_int n * pow2 (23 - e)"
    using inv pow2_pos[of "e - 23"] by (simp add: field_simps)
  also have "\<dots> = of_int (n * 2 ^ k)" by (simp add: pk)
  finally have q: "of_int n / pow2 (e - 23) = of_int (n * 2 ^ k)" .
  have "round_rat (of_int n) = of_int (rne (of_int n / pow2 (e - 23))) * pow2 (e - 23)"
    using e0 by (simp add: round_rat_pos[OF x] e_def)
  also have "\<dots> = of_int (n * 2 ^ k) * pow2 (e - 23)" by (simp only: q rne_of_int)
  also have "\<dots> = of_int n * (pow2 (23 - e) * pow2 (e - 23))" by (simp add: pk)
  finally show ?thesis by (simp only: inv mult_1_right)
qed

lemma fraction_rat_small:
  assumes "0 \<le> T" "T < 16777216" "0 \<le> D" "D < 16777216"
  shows "fraction_rat T D = round_rat (of_int T / of_int D)"
  by (simp only: fraction_rat_def round_rat_of_int_small[OF assms(1,2)]
      round_rat_of_int_small[OF assms(3,4)])

text \<open>When the difference of the end values is itself a float, the end value is met.\<close>

lemma exact_final_value:
  assumes "mFromValue a = Finite x" "mFinalValue a = Finite y"
    and "mDeltaValue a = fsub (mFinalValue a) (mFromValue a)"
    and "is_float (y - x)" "is_float y"
  shows "fadd (mFromValue a) (fmul (mDeltaValue a) (Finite 1)) = Finite y"
proof -
  have d: "mDeltaValue a = Finite (y - x)"
    using assms(1-4) by (simp add: fsub_def to_float_is_float)
  show ?thesis using assms(1,4,5) by (simp add: d to_float_is_float)
qed

lemma animate_RUNNING:
  assumes "mPlayState a = RUNNING" "\<not> frameTimeMs info <s mStartTime a"
    and "mInterpolator a = Some ip" "raw_fraction info a = Finite q"
  shows "animate sv t info a =
    (case sv t (fadd (mFromValue a) (fmul (mDeltaValue a) (ip (Finite (min 1 q))))) of
       Inl e \<Rightarrow> Inl e
     | Inr t1 \<Rightarrow>
         if 1 \<le> q
         then Inr (True, a\<lparr>mPlayState := FINISHED\<rparr>, t1, info,
                   callOnFinishedListener info (a\<lparr>mPlayState := FINISHED\<rparr>))
         else Inr (False, a, t1, info\<lparr>hasAnimations := True\<rparr>, []))"
  using assms by (simp add: animate_def Let_def min_def split: sum.splits)

section \<open>Evaluating the arithmetic\<close>

lemma to_float_small:
  "to_float 1 = Finite 1" "to_float 2 = Finite 2" "to_float 5 = Finite 5"
  "to_float 80 = Finite 80" "to_float 100 = Finite 100"
  "to_float 1000 = Finite 1000" "to_float 1016 = Finite 1016"
  by code_simp+

section \<open>The configuration setters\<close>

lemma checkMutable_simps:
  "checkMutable a = (if mStagingPlayState a = NOT_STARTED then Inr () else Inl AlreadyStarted)"
  by (simp add: checkMutable_def)


section \<open>The commit\<close>

lemma transitionToRunning_playState:
  "transitionToRunning dflt info a = Inr (a', w) \<Longrightarrow> mPlayState a' = mPlayState a"
  by (auto simp: transitionToRunning_def setInterpolator_def checkMutable_simps Let_def
      split: if_splits sum.splits)

lemma pushStaging_playState:
  assumes "pushStaging dflt gv t info a = Inr (a', w)"
  shows "PlayState_val (mPlayState a') =
    max (PlayState_val (mPlayState a)) (PlayState_val (mStagingPlayState a))"
  using assms
  by (auto simp: pushStaging_def Let_def doSetStartValue_def max_def
      dest!: transitionToRunning_playState split: if_splits)

lemma commits_playState:
  "commits dflt gv xs a = Inr a' \<Longrightarrow>
   PlayState_val (mPlayState a') =
     foldl max (PlayState_val (mPlayState a)) (map (\<lambda>x. PlayState_val (fst x)) xs)"
proof (induction xs arbitrary: a)
  case Nil
  then show ?case by simp
next
  case (Cons x xs)
  obtain s t i where x: "x = (s, t, i)" by (cases x)
  from Cons.prems x obtain a1 w where
    p: "pushStaging dflt gv t i (a\<lparr>mStagingPlayState := s\<rparr>) = Inr (a1, w)"
    and c: "commits dflt gv xs a1 = Inr a'"
    by (auto split: sum.splits)
  from pushStaging_playState[OF p]
  have "PlayState_val (mPlayState a1) = max (PlayState_val (mPlayState a)) (PlayState_val s)"
    by simp
  with Cons.IH[OF c] x show ?case by simp
qed

lemma foldl_max_ge: "(m::nat) \<le> foldl max m xs"
  by (induction xs arbitrary: m) (auto intro: order_trans[OF max.cobounded1])

text \<open>What activation does when an interpolator is set, and when none is.\<close>

lemma transitionToRunning_Some:
  "mInterpolator a = Some ip \<Longrightarrow>
   transitionToRunning dflt info a =
     (if frameTimeMs info \<le>s 0 then Inl (NotARealFrameTime (frameTimeMs info))
      else Inr (a\<lparr>mStartTime := (if frameTimeMs info + mStartDelay a <s 0 then 0
                                   else frameTimeMs info + mStartDelay a)\<rparr>,
                (if mStartDelay a <s 0 \<or> 50000 <s mStartDelay a
                 then [WarnStartDelay (mStartDelay a)] else [])
                @ (if frameTimeMs info + mStartDelay a <s 0
                   then [WarnStartTime (frameTimeMs info + mStartDelay a) (frameTimeMs info)
                          (mStartDelay a)]
                   else [])
                @ (if mDuration a <s 0 \<or> 50000 <s mDuration a
                   then [WarnDuration (mDuration a)] else [])))"
  by (simp add: transitionToRunning_def Let_def)

lemma transitionToRunning_None:
  "mInterpolator a = None \<Longrightarrow> mStagingPlayState a \<noteq> NOT_STARTED \<Longrightarrow>
   transitionToRunning dflt info a =
     (if frameTimeMs info \<le>s 0 then Inl (NotARealFrameTime (frameTimeMs info))
      else Inl AlreadyStarted)"
  by (simp add: transitionToRunning_def setInterpolator_def checkMutable_simps Let_def)

text \<open>A commit aborts only in an activation: on a frame time that is not positive, or for want of an interpolator.\<close>

lemma pushStaging_returns:
  "(\<exists>a' w. pushStaging dflt gv t info a = Inr (a', w)) =
   (\<not> (mPlayState a = NOT_STARTED \<and> mStagingPlayState a = RUNNING
        \<and> (frameTimeMs info \<le>s 0 \<or> mInterpolator a = None)))"
  by (cases "mPlayState a"; cases "mStagingPlayState a"; cases "mInterpolator a")
    (simp_all add: pushStaging_def Let_def doSetStartValue_def transitionToRunning_Some
      transitionToRunning_None)

text \<open>
  C3. A commit that returns leaves the committed play state at the maximum of its old
  value and the staging play state, in the order \<open>NOT_STARTED < RUNNING < FINISHED\<close>; over a
  run of commits, with the staging state set to any state before each, the committed
  state is the maximum of its first value and all the staging states, so it never
  decreases. A commit returns unless it is an activation (from \<open>NOT_STARTED\<close> to \<open>RUNNING\<close>)
  that aborts, on a frame time that is not positive or for want of an interpolator.
\<close>

theorem pushStaging_monotone:
  "(pushStaging dflt gv t info a = Inr (a', w) \<longrightarrow>
      PlayState_val (mPlayState a') =
        max (PlayState_val (mPlayState a)) (PlayState_val (mStagingPlayState a)))
   \<and> (commits dflt gv xs a = Inr a'' \<longrightarrow>
      PlayState_val (mPlayState a'') =
        foldl max (PlayState_val (mPlayState a)) (map (\<lambda>x. PlayState_val (fst x)) xs)
      \<and> PlayState_val (mPlayState a) \<le> PlayState_val (mPlayState a''))
   \<and> (\<exists>b v. pushStaging dflt gv t info a = Inr (b, v)) =
       (\<not> (mPlayState a = NOT_STARTED \<and> mStagingPlayState a = RUNNING
            \<and> (frameTimeMs info \<le>s 0 \<or> mInterpolator a = None)))"
  using pushStaging_playState[of dflt gv t info a a' w] commits_playState[of dflt gv xs a a'']
    foldl_max_ge[of "PlayState_val (mPlayState a)" "map (\<lambda>x. PlayState_val (fst x)) xs"]
    pushStaging_returns[of dflt gv t info a]
  by simp

theorem pushStaging_monotone_witness:
  "pushStaging (\<lambda>x. x) CanvasPropertyPrimitiveAnimator_getValue \<lparr>primitive_value = Finite 20\<rparr>
      (frame 1000) (running_example\<lparr>mStagingPlayState := NOT_STARTED\<rparr>)
     = Inr (running_example\<lparr>mStagingPlayState := NOT_STARTED\<rparr>, [])
   \<and> PlayState_val (mPlayState (running_example\<lparr>mStagingPlayState := NOT_STARTED\<rparr>)) =
       max (PlayState_val (mPlayState (running_example\<lparr>mStagingPlayState := NOT_STARTED\<rparr>)))
         (PlayState_val (mStagingPlayState (running_example\<lparr>mStagingPlayState := NOT_STARTED\<rparr>)))
   \<and> commits (\<lambda>x. x) CanvasPropertyPrimitiveAnimator_getValue
        [(NOT_STARTED, \<lparr>primitive_value = Finite 20\<rparr>, frame 1000),
         (FINISHED, \<lparr>primitive_value = Finite 20\<rparr>, frame 1016),
         (RUNNING, \<lparr>primitive_value = Finite 20\<rparr>, frame 1032)] running_example
     = Inr (running_example\<lparr>mStagingPlayState := RUNNING, mPlayState := FINISHED\<rparr>)
   \<and> PlayState_val (mPlayState (running_example\<lparr>mStagingPlayState := RUNNING, mPlayState := FINISHED\<rparr>))
     = foldl max (PlayState_val (mPlayState running_example))
         (map (\<lambda>x. PlayState_val (fst x))
           [(NOT_STARTED, \<lparr>primitive_value = Finite 20\<rparr>, frame 1000),
            (FINISHED, \<lparr>primitive_value = Finite 20\<rparr>, frame 1016),
            (RUNNING, \<lparr>primitive_value = Finite 20\<rparr>, frame 1032)])
   \<and> PlayState_val (mPlayState running_example)
     \<le> PlayState_val (mPlayState (running_example\<lparr>mStagingPlayState := RUNNING, mPlayState := FINISHED\<rparr>))"
  using pushStaging_monotone[of "\<lambda>x. x" CanvasPropertyPrimitiveAnimator_getValue
      "\<lparr>primitive_value = Finite 20\<rparr>" "frame 1000"
      "running_example\<lparr>mStagingPlayState := NOT_STARTED\<rparr>"
      "running_example\<lparr>mStagingPlayState := NOT_STARTED\<rparr>" "[]"
      "[(NOT_STARTED, \<lparr>primitive_value = Finite 20\<rparr>, frame 1000),
        (FINISHED, \<lparr>primitive_value = Finite 20\<rparr>, frame 1016),
        (RUNNING, \<lparr>primitive_value = Finite 20\<rparr>, frame 1032)]"
      "running_example\<lparr>mStagingPlayState := RUNNING, mPlayState := FINISHED\<rparr>"]
  by (simp add: pushStaging_def running_example_def Let_def)

text \<open>
  C5. Activation of an animator on which no interpolator was set: the source installs the
  default through \<open>setInterpolator\<close>, whose \<open>checkMutable\<close> finds the staging state
  \<open>RUNNING\<close>, and the commit aborts with "Animator has already been started!".
\<close>

theorem activation_without_interpolator_aborts:
  "pushStaging (\<lambda>x. x) CanvasPropertyPrimitiveAnimator_getValue \<lparr>primitive_value = Finite 20\<rparr>
     (frame 1000) ((new_BaseRenderNodeAnimator (Finite 100))\<lparr>mStagingPlayState := RUNNING\<rparr>)
   = Inl AlreadyStarted"
  by (simp add: pushStaging_def new_BaseRenderNodeAnimator_def doSetStartValue_def Let_def
      transitionToRunning_None frame_def word_sle_eq)

text \<open>
  A fresh animator on which only an interpolator was set: started and committed at a frame
  time \<open>> 0\<close>, it captures the target's value, runs from that frame time on and keeps the
  default duration of 300.
\<close>

lemma pushStaging_fresh_with_interpolator:
  "pushStaging dflt gv t info
     ((new_BaseRenderNodeAnimator v)\<lparr>mInterpolator := Some ip, mStagingPlayState := RUNNING\<rparr>) =
   (if frameTimeMs info \<le>s 0 then Inl (NotARealFrameTime (frameTimeMs info))
    else Inr ((new_BaseRenderNodeAnimator v)
                \<lparr>mInterpolator := Some ip, mStagingPlayState := RUNNING, mPlayState := RUNNING,
                 mFromValue := gv t, mDeltaValue := fsub v (gv t), mHasStartValue := True,
                 mStartTime := frameTimeMs info, mDuration := 300\<rparr>, []))"
  by (simp add: pushStaging_def new_BaseRenderNodeAnimator_def doSetStartValue_def Let_def
      transitionToRunning_Some word_sle_eq word_sless_alt)

text \<open>
  C10. The constructor's defaults, field by field: duration 300, start delay 0, start time
  0, both play states \<open>NOT_STARTED\<close>, no start value, no interpolator, from and delta 0.
  Evaluating the fresh animator does nothing. Started and committed as it is, it never
  comes to animate: activation finds no interpolator and the commit aborts.
\<close>

theorem new_animator_defaults:
  "new_BaseRenderNodeAnimator v =
     \<lparr> mFinalValue = v, mDeltaValue = Finite 0, mFromValue = Finite 0, mInterpolator = None,
       mStagingPlayState = NOT_STARTED, mPlayState = NOT_STARTED, mHasStartValue = False,
       mStartTime = 0, mDuration = 300, mStartDelay = 0, mListener = None \<rparr>
   \<and> animate sv t info (new_BaseRenderNodeAnimator v)
       = Inr (False, new_BaseRenderNodeAnimator v, t, info, [])
   \<and> pushStaging dflt gv t info ((new_BaseRenderNodeAnimator v)\<lparr>mStagingPlayState := RUNNING\<rparr>) =
       (if frameTimeMs info \<le>s 0 then Inl (NotARealFrameTime (frameTimeMs info))
        else Inl AlreadyStarted)"
  by (simp add: pushStaging_def new_BaseRenderNodeAnimator_def doSetStartValue_def Let_def
      transitionToRunning_None animate_def)

section \<open>Evaluation after the end\<close>

lemma animate_FINISHED:
  assumes "mPlayState a = FINISHED"
  shows "animate sv t info a =
    (if frameTimeMs info <s mStartTime a then Inr (False, a, t, info\<lparr>hasAnimations := True\<rparr>, [])
     else case mInterpolator a of
            None \<Rightarrow> Inl NullInterpolator
          | Some ip \<Rightarrow>
              (case sv t (fadd (mFromValue a) (fmul (mDeltaValue a) (ip (Finite 1)))) of
                 Inl e \<Rightarrow> Inl e
               | Inr t1 \<Rightarrow> Inr (True, a, t1, info, callOnFinishedListener info a)))"
proof -
  have "a\<lparr>mPlayState := FINISHED\<rparr> = a" using assms by simp
  then show ?thesis using assms
    by (simp add: animate_def raw_fraction_def Let_def callOnFinishedListener_def
        split: option.splits sum.splits)
qed

lemma animate_frames_FINISHED:
  "mPlayState a = FINISHED \<Longrightarrow> animate_frames sv t infos a = Inr (fins, a', t', evs) \<Longrightarrow>
   a' = a \<and> length fins = length infos \<and>
   evs = concat (map (\<lambda>(fin, info). if fin then callOnFinishedListener info a else [])
                  (zip fins infos))"
proof (induction infos arbitrary: t fins evs a' t')
  case Nil
  then show ?case by simp
next
  case (Cons info infos)
  from Cons.prems(2) obtain fin a1 t1 i1 ev1 fins2 a2 t2 ev2 where
    s: "animate sv t info a = Inr (fin, a1, t1, i1, ev1)"
    and r: "animate_frames sv t1 infos a1 = Inr (fins2, a2, t2, ev2)"
    and e: "fins = fin # fins2" "a' = a2" "t' = t2" "evs = ev1 @ ev2"
    by (auto split: sum.splits)
  from s Cons.prems(1) have a1: "a1 = a"
    and ev1: "ev1 = (if fin then callOnFinishedListener info a else [])"
    by (auto simp: animate_FINISHED split: if_splits option.splits sum.splits)
  from Cons.IH[OF Cons.prems(1) r[unfolded a1]] e a1 ev1 show ?case by simp
qed

text \<open>
  An animator can be finished without an interpolator: ended before it was ever started,
  its commit copies \<open>FINISHED\<close> and skips the activation; the evaluation then calls
  through the null interpolator.
\<close>

lemma ended_without_interpolator:
  "pushStaging dflt gv t info ((new_BaseRenderNodeAnimator v)\<lparr>mStagingPlayState := FINISHED\<rparr>) =
     Inr ((new_BaseRenderNodeAnimator v)
            \<lparr>mStagingPlayState := FINISHED, mPlayState := FINISHED, mFromValue := gv t,
             mDeltaValue := fsub v (gv t), mHasStartValue := True\<rparr>, [])
   \<and> animate sv t (frame 1000)
         ((new_BaseRenderNodeAnimator v)
            \<lparr>mStagingPlayState := FINISHED, mPlayState := FINISHED, mFromValue := gv t,
             mDeltaValue := fsub v (gv t), mHasStartValue := True\<rparr>) = Inl NullInterpolator"
  by (simp add: pushStaging_def new_BaseRenderNodeAnimator_def doSetStartValue_def Let_def
      animate_FINISHED frame_def word_sless_alt)

text \<open>
  C2, as the code has it. A finished animator stays finished, but evaluating it is not a
  no-op. A frame before the start time only raises \<open>hasAnimations\<close> and returns false. At
  a frame not before the start time, an animator with an interpolator writes
  \<open>from + delta * interpolate(1.0)\<close> to the target again, calls the listener again (when
  there is one) and returns true; an animator without an interpolator calls through the
  null pointer. Over any run of frames the listener is called once for every evaluation
  that returns true.
\<close>

theorem animate_after_finished:
  assumes "mPlayState a = FINISHED"
  shows "animate sv t info a =
      (if frameTimeMs info <s mStartTime a
       then Inr (False, a, t, info\<lparr>hasAnimations := True\<rparr>, [])
       else case mInterpolator a of
              None \<Rightarrow> Inl NullInterpolator
            | Some ip \<Rightarrow>
                (case sv t (fadd (mFromValue a) (fmul (mDeltaValue a) (ip (Finite 1)))) of
                   Inl e \<Rightarrow> Inl e
                 | Inr t1 \<Rightarrow> Inr (True, a, t1, info, callOnFinishedListener info a)))
    \<and> (animate_frames sv t infos a = Inr (fins, a', t', evs) \<longrightarrow>
         a' = a \<and> length fins = length infos \<and>
         evs = concat (map (\<lambda>(fin, info). if fin then callOnFinishedListener info a else [])
                        (zip fins infos)))"
  using animate_FINISHED[OF assms, of sv t info]
    animate_frames_FINISHED[OF assms, of sv t infos fins a' t' evs]
  by simp

theorem animate_after_finished_witness:
  "mPlayState (running_example\<lparr>mPlayState := FINISHED\<rparr>) = FINISHED
   \<and> animate CanvasPropertyPrimitiveAnimator_setValue \<lparr>primitive_value = Finite 0\<rparr> (frame 1016)
       (running_example\<lparr>mPlayState := FINISHED\<rparr>)
     = Inr (True, running_example\<lparr>mPlayState := FINISHED\<rparr>, \<lparr>primitive_value = Finite 100\<rparr>,
            frame 1016, [onAnimationFinished 7])"
  using animate_after_finished[of "running_example\<lparr>mPlayState := FINISHED\<rparr>"
      CanvasPropertyPrimitiveAnimator_setValue "\<lparr>primitive_value = Finite 0\<rparr>" "frame 1016"]
  by (simp add: running_example_def frame_def word_sless_alt to_float_small
      CanvasPropertyPrimitiveAnimator_setValue_def callOnFinishedListener_def)

text \<open>
  The claim of C2 fails: the running sample animator, evaluated at the frames 1000 and 1016,
  finishes at the first and is finished at the second, yet both evaluations return true,
  both write the target and both call the listener.
\<close>

theorem animate_twice_calls_listener_twice:
  "(case animate_frames CanvasPropertyPrimitiveAnimator_setValue \<lparr>primitive_value = Finite 0\<rparr>
           [frame 1000, frame 1016] running_example of
      Inl e \<Rightarrow> None
    | Inr (fins, a, t, evs) \<Rightarrow> Some (fins, mPlayState a, t, evs))
   = Some ([True, True], FINISHED, \<lparr>primitive_value = Finite 100\<rparr>,
           [onAnimationFinished 7, onAnimationFinished 7])
   \<and> animate CanvasPropertyPrimitiveAnimator_setValue \<lparr>primitive_value = Finite 0\<rparr> (frame 1016)
       (running_example\<lparr>mPlayState := FINISHED\<rparr>)
     = Inr (True, running_example\<lparr>mPlayState := FINISHED\<rparr>, \<lparr>primitive_value = Finite 100\<rparr>,
            frame 1016, [onAnimationFinished 7])"
proof
  show "(case animate_frames CanvasPropertyPrimitiveAnimator_setValue \<lparr>primitive_value = Finite 0\<rparr>
           [frame 1000, frame 1016] running_example of
      Inl e \<Rightarrow> None
    | Inr (fins, a, t, evs) \<Rightarrow> Some (fins, mPlayState a, t, evs))
   = Some ([True, True], FINISHED, \<lparr>primitive_value = Finite 100\<rparr>,
           [onAnimationFinished 7, onAnimationFinished 7])"
    by code_simp
  show "animate CanvasPropertyPrimitiveAnimator_setValue \<lparr>primitive_value = Finite 0\<rparr> (frame 1016)
       (running_example\<lparr>mPlayState := FINISHED\<rparr>)
     = Inr (True, running_example\<lparr>mPlayState := FINISHED\<rparr>, \<lparr>primitive_value = Finite 100\<rparr>,
            frame 1016, [onAnimationFinished 7])"
    by (simp add: animate_def raw_fraction_def running_example_def frame_def word_sless_alt
        to_float_small CanvasPropertyPrimitiveAnimator_setValue_def callOnFinishedListener_def)
qed

section \<open>The invariant of the animator\<close>

lemma consistent_new: "consistent (new_BaseRenderNodeAnimator v)"
  by (simp add: consistent_def new_BaseRenderNodeAnimator_def)

lemma consistent_setters:
  assumes "consistent a"
  shows "setInterpolator i a = Inr a' \<Longrightarrow> consistent a'"
    and "setDuration d a = Inr a' \<Longrightarrow> consistent a'"
    and "setStartDelay sd a = Inr a' \<Longrightarrow> consistent a'"
    and "setStartValue v a = Inr a' \<Longrightarrow> consistent a'"
  using assms
  by (auto simp: consistent_def setInterpolator_def setDuration_def setStartDelay_def
      setStartValue_def doSetStartValue_def checkMutable_simps split: if_splits)

lemma consistent_staging: "consistent a \<Longrightarrow> consistent (a\<lparr>mStagingPlayState := s\<rparr>)"
  by (simp add: consistent_def)

lemma consistent_pushStaging:
  assumes "consistent a" "pushStaging dflt gv t info a = Inr (a', w)"
  shows "consistent a' \<and> mHasStartValue a'"
  using assms
  by (auto simp: consistent_def pushStaging_def Let_def doSetStartValue_def
      transitionToRunning_def setInterpolator_def checkMutable_simps word_sle_eq word_sless_alt
      split: if_splits sum.splits)

lemma consistent_animate:
  assumes "consistent a" "animate sv t info a = Inr (r, a', t', info', evs)"
  shows "consistent a'"
  using assms
  by (auto simp: consistent_def animate_def Let_def split: if_splits option.splits sum.splits)

section \<open>The running animator\<close>

lemma callOnFinishedListener_playState:
  "callOnFinishedListener info (a\<lparr>mPlayState := s\<rparr>) = callOnFinishedListener info a"
  by (simp add: callOnFinishedListener_def)

lemma fraction_rat_half: "fraction_rat 500 1000 = 1 / 2" "fraction_rat 300 300 = 1"
  by code_simp+

lemma to_float_examples:
  "to_float (1 / 10) = Finite (13421773 / 134217728)"
  "to_float (13421773 / 134217728 - 1) = Finite (- (7549747 / 8388608))"
  "to_float (- (7549747 / 8388608)) = Finite (- (7549747 / 8388608))"
  "to_float (1 - 7549747 / 8388608) = Finite (838861 / 8388608)"
  "to_float (13421773 / 134217728 - 100) = Finite (- (13094093 / 131072))"
  "to_float (- (13094093 / 131072)) = Finite (- (13094093 / 131072))"
  "to_float (100 - 13094093 / 131072) = Finite (13107 / 131072)"
  "to_float 4 = Finite 4" "to_float 40 = Finite 40" "to_float 60 = Finite 60"
  "to_float 300 = Finite 300"
  "to_float (- (120795955 / 134217728)) = Finite (- (7549747 / 8388608))"
  "to_float (838861 / 8388608) = Finite (838861 / 8388608)"
  "to_float (- (13408351027 / 134217728)) = Finite (- (13094093 / 131072))"
  "to_float (13107 / 131072) = Finite (13107 / 131072)"
  by code_simp+

text \<open>
  C1, as the code has it. Take a running animator with an interpolator, a duration
  \<open>d > 0\<close> and a start time \<open>\<ge> 0\<close> (every \<open>consistent\<close> animator has one), and a frame
  at \<open>t \<ge> startTime\<close>. With \<open>T = t - startTime\<close>:
  \<^item> the raw fraction is the single-precision quotient \<open>q\<close> of \<open>T\<close> and \<open>d\<close>, not negative, and it
    is the correctly rounded \<open>T / d\<close> when both integers are below \<open>2\<^sup>2\<^sup>4\<close>;
  \<^item> the interpolator is given \<open>min 1 q\<close>, and the animator finishes (play state
    \<open>FINISHED\<close>, listener called, true returned) exactly when \<open>q \<ge> 1\<close>;
  \<^item> at a later frame the fraction is computed the same way, and \<open>min 1 q\<close> is not
    smaller there;
  \<^item> at \<open>t \<ge> startTime + d\<close> the fraction is \<open>1.0\<close>, so the animator finishes, and it
    writes \<open>from + delta * interpolate(1.0)\<close>, computed in single precision;
  \<^item> that value is the final value when the interpolator maps \<open>1.0\<close> to \<open>1.0\<close> and the
    difference \<open>final - from\<close> is itself a single-precision number;
  \<^item> no later evaluation takes the animator out of \<open>FINISHED\<close>.
\<close>

theorem animate_running_fraction:
  assumes "mPlayState a = RUNNING" "0 <s mDuration a" "0 \<le>s mStartTime a"
    and "mStartTime a \<le>s frameTimeMs info" "mInterpolator a = Some ip"
  shows "let T = sint (frameTimeMs info) - sint (mStartTime a);
             D = sint (mDuration a);
             q = fraction_rat T D
         in raw_fraction info a = Finite q \<and> 0 \<le> q
          \<and> animate sv t info a =
              (case sv t (fadd (mFromValue a) (fmul (mDeltaValue a) (ip (Finite (min 1 q))))) of
                 Inl e \<Rightarrow> Inl e
               | Inr t1 \<Rightarrow>
                   if 1 \<le> q
                   then Inr (True, a\<lparr>mPlayState := FINISHED\<rparr>, t1, info,
                             callOnFinishedListener info a)
                   else Inr (False, a, t1, info\<lparr>hasAnimations := True\<rparr>, []))
          \<and> (T < 16777216 \<and> D < 16777216 \<longrightarrow> q = round_rat (of_int T / of_int D))
          \<and> (\<forall>info' :: TreeInfo. frameTimeMs info \<le>s frameTimeMs info' \<longrightarrow>
                raw_fraction info' a =
                  Finite (fraction_rat (sint (frameTimeMs info') - sint (mStartTime a)) D)
                \<and> min 1 q
                    \<le> min 1 (fraction_rat (sint (frameTimeMs info') - sint (mStartTime a)) D))
          \<and> (D \<le> T \<longrightarrow> 1 \<le> q)
          \<and> (D \<le> T \<and> ip (Finite 1) = Finite 1
              \<and> mDeltaValue a = fsub (mFinalValue a) (mFromValue a)
              \<and> (\<exists>x y. mFromValue a = Finite x \<and> mFinalValue a = Finite y
                    \<and> is_float (y - x) \<and> is_float y)
              \<longrightarrow> animate sv t info a =
                    (case sv t (mFinalValue a) of
                       Inl e \<Rightarrow> Inl e
                     | Inr t1 \<Rightarrow> Inr (True, a\<lparr>mPlayState := FINISHED\<rparr>, t1, info,
                                       callOnFinishedListener info a)))
          \<and> (\<forall>sv' t' info' r. animate sv' t' info' (a\<lparr>mPlayState := FINISHED\<rparr>) = Inr r
                \<longrightarrow> fst (snd r) = a\<lparr>mPlayState := FINISHED\<rparr>)"
proof -
  define T where "T = sint (frameTimeMs info) - sint (mStartTime a)"
  define D where "D = sint (mDuration a)"
  define q where "q = fraction_rat T D"
  have s: "0 \<le> sint (mStartTime a)" "sint (mStartTime a) \<le> sint (frameTimeMs info)"
    and d: "0 < D"
    using assms by (simp_all add: word_sle_eq word_sless_alt D_def)
  have T0: "0 \<le> T" using s by (simp add: T_def)
  have Tb: "T < 9223372036854775808"
    using s sint_64_bounds[of "frameTimeMs info"] by (simp add: T_def)
  have Db: "D < 9223372036854775808" using sint_64_bounds[of "mDuration a"] by (simp add: D_def)
  have raw: "raw_fraction info a = Finite q"
    using raw_fraction_running[OF assms(1-4)] by (simp add: q_def T_def D_def)
  have q0: "0 \<le> q" using fraction_rat_bounds[OF T0 Tb d Db] by (simp add: q_def)
  have nlt: "\<not> frameTimeMs info <s mStartTime a"
    using s by (simp add: word_sless_alt)
  have an: "animate sv t info a =
      (case sv t (fadd (mFromValue a) (fmul (mDeltaValue a) (ip (Finite (min 1 q))))) of
         Inl e \<Rightarrow> Inl e
       | Inr t1 \<Rightarrow>
           if 1 \<le> q
           then Inr (True, a\<lparr>mPlayState := FINISHED\<rparr>, t1, info, callOnFinishedListener info a)
           else Inr (False, a, t1, info\<lparr>hasAnimations := True\<rparr>, []))"
    using animate_RUNNING[OF assms(1) nlt assms(5) raw, of sv t]
    by (simp only: callOnFinishedListener_playState)
  have small: "T < 16777216 \<and> D < 16777216 \<longrightarrow> q = round_rat (of_int T / of_int D)"
    using fraction_rat_small[of T D] T0 d by (simp add: q_def)
  have mono: "\<forall>info' :: TreeInfo. frameTimeMs info \<le>s frameTimeMs info' \<longrightarrow>
      raw_fraction info' a =
        Finite (fraction_rat (sint (frameTimeMs info') - sint (mStartTime a)) D)
      \<and> min 1 q \<le> min 1 (fraction_rat (sint (frameTimeMs info') - sint (mStartTime a)) D)"
  proof (intro allI impI)
    fix info' :: TreeInfo
    assume le: "frameTimeMs info \<le>s frameTimeMs info'"
    then have s': "mStartTime a \<le>s frameTimeMs info'"
      using assms(4) by (simp add: word_sle_eq)
    have TT: "T \<le> sint (frameTimeMs info') - sint (mStartTime a)"
      using le by (simp add: T_def word_sle_eq)
    from raw_fraction_running[OF assms(1-3) s'] fraction_rat_mono[OF T0 TT d]
    show "raw_fraction info' a =
        Finite (fraction_rat (sint (frameTimeMs info') - sint (mStartTime a)) D)
      \<and> min 1 q \<le> min 1 (fraction_rat (sint (frameTimeMs info') - sint (mStartTime a)) D)"
      by (simp add: q_def D_def min_def)
  qed
  have fin: "D \<le> T \<longrightarrow> 1 \<le> q" using fraction_rat_ge_1[OF d] by (simp add: q_def)
  have exact: "D \<le> T \<and> ip (Finite 1) = Finite 1
      \<and> mDeltaValue a = fsub (mFinalValue a) (mFromValue a)
      \<and> (\<exists>x y. mFromValue a = Finite x \<and> mFinalValue a = Finite y
            \<and> is_float (y - x) \<and> is_float y)
      \<longrightarrow> animate sv t info a =
            (case sv t (mFinalValue a) of
               Inl e \<Rightarrow> Inl e
             | Inr t1 \<Rightarrow> Inr (True, a\<lparr>mPlayState := FINISHED\<rparr>, t1, info,
                               callOnFinishedListener info a))"
  proof (intro impI, elim conjE exE)
    fix x y
    assume h: "D \<le> T" "ip (Finite 1) = Finite 1"
      "mDeltaValue a = fsub (mFinalValue a) (mFromValue a)"
      "mFromValue a = Finite x" "mFinalValue a = Finite y" "is_float (y - x)" "is_float y"
    from h(1) fin have q1: "1 \<le> q" by simp
    then have m: "min 1 q = 1" by simp
    have v: "fadd (mFromValue a) (fmul (mDeltaValue a) (Finite 1)) = mFinalValue a"
      using exact_final_value[OF h(4,5,3,6,7)] h(5) by simp
    show "animate sv t info a =
            (case sv t (mFinalValue a) of
               Inl e \<Rightarrow> Inl e
             | Inr t1 \<Rightarrow> Inr (True, a\<lparr>mPlayState := FINISHED\<rparr>, t1, info,
                               callOnFinishedListener info a))"
      by (simp only: an m h(2) v q1 if_True)
  qed
  have stays: "\<forall>sv' t' info' r. animate sv' t' info' (a\<lparr>mPlayState := FINISHED\<rparr>) = Inr r
                \<longrightarrow> fst (snd r) = a\<lparr>mPlayState := FINISHED\<rparr>"
    by (auto simp: animate_FINISHED split: if_splits option.splits sum.splits)
  from raw q0 an small mono fin exact stays show ?thesis
    by (simp only: Let_def T_def [symmetric] D_def [symmetric] q_def [symmetric] simp_thms)
qed


theorem animate_running_fraction_witness:
  "mPlayState running_example = RUNNING \<and> 0 <s mDuration running_example
   \<and> 0 \<le>s mStartTime running_example
   \<and> mStartTime running_example \<le>s frameTimeMs (frame 500)
   \<and> mInterpolator running_example = Some (\<lambda>x. x)
   \<and> raw_fraction (frame 500) running_example = Finite (1 / 2)
   \<and> animate CanvasPropertyPrimitiveAnimator_setValue \<lparr>primitive_value = Finite 20\<rparr> (frame 500)
        running_example
      = Inr (False, running_example, \<lparr>primitive_value = Finite 60\<rparr>,
             (frame 500)\<lparr>hasAnimations := True\<rparr>, [])"
proof -
  have h: "mPlayState running_example = RUNNING" "0 <s mDuration running_example"
    "0 \<le>s mStartTime running_example" "mStartTime running_example \<le>s frameTimeMs (frame 500)"
    "mInterpolator running_example = Some (\<lambda>x. x)"
    by (simp_all add: running_example_def frame_def word_sless_alt word_sle_eq)
  have T: "sint (frameTimeMs (frame 500)) - sint (mStartTime running_example) = 500"
    "sint (mDuration running_example) = 1000"
    by (simp_all add: running_example_def frame_def)
  from animate_running_fraction[OF h, of CanvasPropertyPrimitiveAnimator_setValue
      "\<lparr>primitive_value = Finite 20\<rparr>"]
  have "raw_fraction (frame 500) running_example = Finite (1 / 2)
    \<and> animate CanvasPropertyPrimitiveAnimator_setValue \<lparr>primitive_value = Finite 20\<rparr> (frame 500)
        running_example =
       (case CanvasPropertyPrimitiveAnimator_setValue \<lparr>primitive_value = Finite 20\<rparr>
               (fadd (mFromValue running_example)
                  (fmul (mDeltaValue running_example) (Finite (min 1 (1 / 2))))) of
          Inl e \<Rightarrow> Inl e
        | Inr t1 \<Rightarrow>
            if (1::rat) \<le> 1 / 2
            then Inr (True, running_example\<lparr>mPlayState := FINISHED\<rparr>, t1, frame 500,
                      callOnFinishedListener (frame 500) running_example)
            else Inr (False, running_example, t1, (frame 500)\<lparr>hasAnimations := True\<rparr>, []))"
    unfolding Let_def T fraction_rat_half by blast
  then have "raw_fraction (frame 500) running_example = Finite (1 / 2)
    \<and> animate CanvasPropertyPrimitiveAnimator_setValue \<lparr>primitive_value = Finite 20\<rparr> (frame 500)
        running_example
      = Inr (False, running_example, \<lparr>primitive_value = Finite 60\<rparr>,
             (frame 500)\<lparr>hasAnimations := True\<rparr>, [])"
    by (simp add: running_example_def to_float_examples
        CanvasPropertyPrimitiveAnimator_setValue_def)
  with h show ?thesis by simp
qed

text \<open>
  The claim of C1 fails in "writes exactly finalValue". An animator towards 0.1 with the
  identity interpolator and the default duration is started and committed at frame 1000
  on a target whose value is 1.0. The delta \<open>0.1 - 1.0\<close> is rounded, and the evaluation at
  frame 1300 (start time plus duration) finishes and writes \<open>838861 / 8388608\<close>, about
  \<open>0.10000002\<close>, which is not the final value \<open>13421773 / 134217728\<close>.
\<close>

theorem animate_end_value_inexact:
  "pushStaging (\<lambda>x. x) CanvasPropertyPrimitiveAnimator_getValue \<lparr>primitive_value = Finite 1\<rparr>
      (frame 1000) fade_started
     = Inr (fade_running, [])
   \<and> animate CanvasPropertyPrimitiveAnimator_setValue \<lparr>primitive_value = Finite 1\<rparr> (frame 1300)
        fade_running
     = Inr (True, fade_running\<lparr>mPlayState := FINISHED\<rparr>,
            \<lparr>primitive_value = Finite (838861 / 8388608)\<rparr>, frame 1300, [])
   \<and> mFinalValue fade_running = Finite (13421773 / 134217728)
   \<and> Finite (838861 / 8388608) \<noteq> Finite (13421773 / 134217728)"
  by (simp add: pushStaging_def fade_started_def fade_running_def new_BaseRenderNodeAnimator_def
      doSetStartValue_def CanvasPropertyPrimitiveAnimator_getValue_def Let_def
      transitionToRunning_Some frame_def word_sless_alt word_sle_eq fsub_def
      to_float_examples animate_def raw_fraction_def float_of_int64_def to_float_small
      CanvasPropertyPrimitiveAnimator_setValue_def callOnFinishedListener_def)


text \<open>A duration that is not positive.\<close>

lemma raw_fraction_nonpositive:
  "mDuration a \<le>s 0 \<Longrightarrow> raw_fraction info a = Finite 1"
  by (simp add: raw_fraction_def word_sle_eq word_sless_alt)

text \<open>
  C4, as the code has it. For a running animator with an interpolator and a duration of
  zero or less, an evaluation at a frame not before the start time takes the fraction
  \<open>1.0\<close> without dividing, writes \<open>from + delta * interpolate(1.0)\<close> in single precision,
  moves to \<open>FINISHED\<close>, calls the listener and returns true. The value written is the
  final value when the interpolator maps \<open>1.0\<close> to \<open>1.0\<close> and \<open>final - from\<close> is itself a
  single-precision number, as in the paint scenario (stroke width from 1.0 to 5.0).
\<close>

theorem animate_nonpositive_duration:
  assumes "mPlayState a = RUNNING" "mDuration a \<le>s 0" "mStartTime a \<le>s frameTimeMs info"
    and "mInterpolator a = Some ip"
  shows "raw_fraction info a = Finite 1
    \<and> animate sv t info a =
        (case sv t (fadd (mFromValue a) (fmul (mDeltaValue a) (ip (Finite 1)))) of
           Inl e \<Rightarrow> Inl e
         | Inr t1 \<Rightarrow> Inr (True, a\<lparr>mPlayState := FINISHED\<rparr>, t1, info,
                           callOnFinishedListener info a))
    \<and> (ip (Finite 1) = Finite 1
        \<and> mDeltaValue a = fsub (mFinalValue a) (mFromValue a)
        \<and> (\<exists>x y. mFromValue a = Finite x \<and> mFinalValue a = Finite y
              \<and> is_float (y - x) \<and> is_float y)
        \<longrightarrow> animate sv t info a =
              (case sv t (mFinalValue a) of
                 Inl e \<Rightarrow> Inl e
               | Inr t1 \<Rightarrow> Inr (True, a\<lparr>mPlayState := FINISHED\<rparr>, t1, info,
                                 callOnFinishedListener info a)))"
proof -
  have raw: "raw_fraction info a = Finite 1" using assms(2) by (rule raw_fraction_nonpositive)
  have nlt: "\<not> frameTimeMs info <s mStartTime a"
    using assms(3) by (simp add: word_sless_alt word_sle_eq)
  have an: "animate sv t info a =
        (case sv t (fadd (mFromValue a) (fmul (mDeltaValue a) (ip (Finite 1)))) of
           Inl e \<Rightarrow> Inl e
         | Inr t1 \<Rightarrow> Inr (True, a\<lparr>mPlayState := FINISHED\<rparr>, t1, info,
                           callOnFinishedListener info a))"
    using animate_RUNNING[OF assms(1) nlt assms(4) raw, of sv t]
    by (simp only: callOnFinishedListener_playState min.idem order_refl if_True)
  have exact: "ip (Finite 1) = Finite 1
        \<and> mDeltaValue a = fsub (mFinalValue a) (mFromValue a)
        \<and> (\<exists>x y. mFromValue a = Finite x \<and> mFinalValue a = Finite y
              \<and> is_float (y - x) \<and> is_float y)
        \<longrightarrow> animate sv t info a =
              (case sv t (mFinalValue a) of
                 Inl e \<Rightarrow> Inl e
               | Inr t1 \<Rightarrow> Inr (True, a\<lparr>mPlayState := FINISHED\<rparr>, t1, info,
                                 callOnFinishedListener info a))"
  proof (intro impI, elim conjE exE)
    fix x y
    assume h: "ip (Finite 1) = Finite 1"
      "mDeltaValue a = fsub (mFinalValue a) (mFromValue a)"
      "mFromValue a = Finite x" "mFinalValue a = Finite y" "is_float (y - x)" "is_float y"
    have v: "fadd (mFromValue a) (fmul (mDeltaValue a) (Finite 1)) = mFinalValue a"
      using exact_final_value[OF h(3,4,2,5,6)] h(4) by simp
    show "animate sv t info a =
              (case sv t (mFinalValue a) of
                 Inl e \<Rightarrow> Inl e
               | Inr t1 \<Rightarrow> Inr (True, a\<lparr>mPlayState := FINISHED\<rparr>, t1, info,
                                 callOnFinishedListener info a))"
      by (simp only: an h(1) v)
  qed
  from raw an exact show ?thesis by (simp only: simp_thms)
qed

lemma is_float_4_5: "is_float (5 - 1)" "is_float 5"
  by code_simp+

theorem animate_nonpositive_duration_witness:
  "mPlayState stroke_running = RUNNING \<and> mDuration stroke_running \<le>s 0
   \<and> mStartTime stroke_running \<le>s frameTimeMs (frame 1000)
   \<and> mInterpolator stroke_running = Some (\<lambda>x. x)
   \<and> animate (CanvasPropertyPaintAnimator_setValue STROKE_WIDTH)
        \<lparr>strokeWidth = Finite 1, alpha = 255\<rparr> (frame 1000) stroke_running
      = Inr (True, stroke_running\<lparr>mPlayState := FINISHED\<rparr>,
             \<lparr>strokeWidth = Finite 5, alpha = 255\<rparr>, frame 1000, [])"
proof -
  have h: "mPlayState stroke_running = RUNNING" "mDuration stroke_running \<le>s 0"
    "mStartTime stroke_running \<le>s frameTimeMs (frame 1000)"
    "mInterpolator stroke_running = Some (\<lambda>x. x)"
    by (simp_all add: stroke_running_def frame_def word_sle_eq)
  have e: "(\<lambda>x. x) (Finite 1) = Finite 1
    \<and> mDeltaValue stroke_running = fsub (mFinalValue stroke_running) (mFromValue stroke_running)
    \<and> (\<exists>x y. mFromValue stroke_running = Finite x \<and> mFinalValue stroke_running = Finite y
          \<and> is_float (y - x) \<and> is_float y)"
    using is_float_4_5 by (simp add: stroke_running_def fsub_def to_float_examples)
  from animate_nonpositive_duration[OF h, of "CanvasPropertyPaintAnimator_setValue STROKE_WIDTH"
      "\<lparr>strokeWidth = Finite 1, alpha = 255\<rparr>"] e
  have "animate (CanvasPropertyPaintAnimator_setValue STROKE_WIDTH)
        \<lparr>strokeWidth = Finite 1, alpha = 255\<rparr> (frame 1000) stroke_running =
      (case CanvasPropertyPaintAnimator_setValue STROKE_WIDTH \<lparr>strokeWidth = Finite 1, alpha = 255\<rparr>
              (mFinalValue stroke_running) of
         Inl e \<Rightarrow> Inl e
       | Inr t1 \<Rightarrow> Inr (True, stroke_running\<lparr>mPlayState := FINISHED\<rparr>, t1, frame 1000,
                         callOnFinishedListener (frame 1000) stroke_running))"
    by blast
  then have "animate (CanvasPropertyPaintAnimator_setValue STROKE_WIDTH)
        \<lparr>strokeWidth = Finite 1, alpha = 255\<rparr> (frame 1000) stroke_running
      = Inr (True, stroke_running\<lparr>mPlayState := FINISHED\<rparr>,
             \<lparr>strokeWidth = Finite 5, alpha = 255\<rparr>, frame 1000, [])"
    by (simp add: stroke_running_def CanvasPropertyPaintAnimator_setValue_def
        callOnFinishedListener_def)
  with h show ?thesis by simp
qed

text \<open>
  The claim of C4 fails in "writes finalValue". The animator towards 0.1 with duration 0
  is started and committed at frame 1000 on a target whose value is 100. The evaluation
  at the same frame finishes and writes \<open>13107 / 131072\<close>, about \<open>0.0999985\<close>, not the
  final value.
\<close>

theorem animate_zero_duration_inexact:
  "pushStaging (\<lambda>x. x) CanvasPropertyPrimitiveAnimator_getValue \<lparr>primitive_value = Finite 100\<rparr>
      (frame 1000) instant_started
     = Inr (instant_running, [])
   \<and> mDuration instant_running = 0
   \<and> animate CanvasPropertyPrimitiveAnimator_setValue \<lparr>primitive_value = Finite 100\<rparr> (frame 1000)
        instant_running
     = Inr (True, instant_running\<lparr>mPlayState := FINISHED\<rparr>,
            \<lparr>primitive_value = Finite (13107 / 131072)\<rparr>, frame 1000, [])
   \<and> mFinalValue instant_running = Finite (13421773 / 134217728)
   \<and> Finite (13107 / 131072) \<noteq> Finite (13421773 / 134217728)"
  by (simp add: pushStaging_def instant_started_def instant_running_def
      new_BaseRenderNodeAnimator_def
      doSetStartValue_def CanvasPropertyPrimitiveAnimator_getValue_def Let_def
      transitionToRunning_Some frame_def word_sless_alt word_sle_eq fsub_def
      to_float_examples animate_def raw_fraction_def float_of_int64_def to_float_small
      CanvasPropertyPrimitiveAnimator_setValue_def callOnFinishedListener_def)

section \<open>The alpha conversion\<close>












section \<open>The accessor table and attachment\<close>

lemma LUT_entry:
  "dirtyMask (PROPERTY_ACCESSOR_LUT ! RenderProperty_val p) =
     (if p = TRANSLATION_Z then RenderNode_TRANSLATION_X else RenderProperty_mask p)
   \<and> Getter_property (getter (PROPERTY_ACCESSOR_LUT ! RenderProperty_val p)) = p
   \<and> Setter_property (setter (PROPERTY_ACCESSOR_LUT ! RenderProperty_val p)) = p"
  by (cases p) (simp_all add: PROPERTY_ACCESSOR_LUT_def)

text \<open>
  C9. The table has twelve entries. The entries of \<open>TRANSLATION_X\<close> and \<open>TRANSLATION_Z\<close>
  (the getters tell which is which) both carry the mask \<open>RenderNode::TRANSLATION_X\<close>, and
  this is the only pair of entries with the same mask: the masks are not one per property.
\<close>

theorem LUT_duplicate_mask:
  "length PROPERTY_ACCESSOR_LUT = 12
   \<and> getter (PROPERTY_ACCESSOR_LUT ! RenderProperty_val TRANSLATION_X) = getTranslationX
   \<and> getter (PROPERTY_ACCESSOR_LUT ! RenderProperty_val TRANSLATION_Z) = getTranslationZ
   \<and> dirtyMask (PROPERTY_ACCESSOR_LUT ! RenderProperty_val TRANSLATION_X) = RenderNode_TRANSLATION_X
   \<and> dirtyMask (PROPERTY_ACCESSOR_LUT ! RenderProperty_val TRANSLATION_Z) = RenderNode_TRANSLATION_X
   \<and> [(i, j) \<leftarrow> List.product [0..<12] [0..<12].
        i < j \<and> dirtyMask (PROPERTY_ACCESSOR_LUT ! i) = dirtyMask (PROPERTY_ACCESSOR_LUT ! j)]
       = [(RenderProperty_val TRANSLATION_X, RenderProperty_val TRANSLATION_Z)]
   \<and> \<not> distinct (map dirtyMask PROPERTY_ACCESSOR_LUT)"
  by code_simp

text \<open>
  C8, as the code has it, for every property but \<open>TRANSLATION_Z\<close> (whose table entry
  carries another property's mask). When no start value is resolved and the property's
  dirty bit is set on the target, the staging value read by the property's getter becomes
  the start value, provided the staging play state is \<open>NOT_STARTED\<close>; if the animator was
  started before, the attachment aborts and nothing is written. Whenever the attachment
  returns, the staging copy of the property has been given the final value by the
  property's setter.
\<close>

theorem onAttached_captures_and_writes:
  assumes "p \<noteq> TRANSLATION_Z"
    and "mPropertyAccess a = PROPERTY_ACCESSOR_LUT ! RenderProperty_val p"
  shows "onAttached rget rset target a =
      (if \<not> mHasStartValue (base a) \<and> isPropertyFieldDirty target (RenderProperty_mask p)
       then (if mStagingPlayState (base a) = NOT_STARTED
             then Inr (a\<lparr>base := doSetStartValue
                              (rget (getter (mPropertyAccess a)) (mStagingProperties target)) (base a)\<rparr>,
                       target\<lparr>mStagingProperties :=
                         rset (setter (mPropertyAccess a)) (mStagingProperties target)
                           (mFinalValue (base a))\<rparr>)
             else Inl AlreadyStarted)
       else Inr (a, target\<lparr>mStagingProperties :=
                      rset (setter (mPropertyAccess a)) (mStagingProperties target)
                        (mFinalValue (base a))\<rparr>))
    \<and> Getter_property (getter (mPropertyAccess a)) = p
    \<and> Setter_property (setter (mPropertyAccess a)) = p"
  using assms LUT_entry[of p]
  by (simp add: onAttached_def setStartValue_def checkMutable_simps doSetStartValue_def)

theorem onAttached_captures_and_writes_witness:
  "TRANSLATION_Y \<noteq> TRANSLATION_Z
   \<and> mPropertyAccess (new_RenderPropertyAnimator TRANSLATION_Y (Finite 5))
       = PROPERTY_ACCESSOR_LUT ! RenderProperty_val TRANSLATION_Y
   \<and> onAttached RenderProperties_get RenderProperties_set node_example
       (new_RenderPropertyAnimator TRANSLATION_Y (Finite 5))
     = Inr ((new_RenderPropertyAnimator TRANSLATION_Y (Finite 5))
              \<lparr>base := (new_BaseRenderNodeAnimator (Finite 5))
                 \<lparr>mFromValue := Finite 3, mDeltaValue := Finite 2, mHasStartValue := True\<rparr>\<rparr>,
            node_example\<lparr>mStagingProperties := (\<lambda>q. Finite 3)(TRANSLATION_Y := Finite 5)\<rparr>)"
  using onAttached_captures_and_writes[of TRANSLATION_Y
      "new_RenderPropertyAnimator TRANSLATION_Y (Finite 5)"
      RenderProperties_get RenderProperties_set node_example]
  by (simp add: new_RenderPropertyAnimator_def new_BaseRenderNodeAnimator_def node_example_def
      PROPERTY_ACCESSOR_LUT_def isPropertyFieldDirty_def doSetStartValue_def fsub_def
      RenderProperties_get_def RenderProperties_set_def to_float_small)

text \<open>
  The claim of C8 fails: an animator started before it is attached, with no start value,
  on a node whose property is dirty. The attachment aborts in \<open>setStartValue\<close> and the
  staging copy is not written.
\<close>

theorem onAttached_started_aborts:
  "onAttached RenderProperties_get RenderProperties_set node_example
     ((new_RenderPropertyAnimator TRANSLATION_Y (Finite 5))
        \<lparr>base := (new_BaseRenderNodeAnimator (Finite 5))\<lparr>mStagingPlayState := RUNNING\<rparr>\<rparr>)
   = Inl AlreadyStarted"
  by (simp add: onAttached_def new_RenderPropertyAnimator_def new_BaseRenderNodeAnimator_def
      node_example_def PROPERTY_ACCESSOR_LUT_def isPropertyFieldDirty_def setStartValue_def
      checkMutable_simps)

end
